theory Spec2Isabelle
  imports Complex_Main "HOL-Library.Word" "HOL-Library.Signed_Division"
begin

section \<open>Common types\<close>

text \<open>
  The C++ types of the repository are modelled as follows.
  \<^item> \<open>long\<close> is a 64-bit and \<open>int\<close> a 32-bit two's complement word: \<open>+\<close>, \<open>-\<close> and
    unary minus wrap around, \<open>sint\<close> reads the signed value.
  \<^item> A \<open>double\<close> is modelled by the real number it denotes. Rounding to the 53-bit
    significand is written out where an integer result or a branch of the code depends on
    the rounded value: the conversion of a \<open>long\<close> to \<open>double\<close>, the subtraction in
    \<open>OrderBook::GetSpread\<close>, and the sums, the product and the quotient of
    \<open>BondRiskService::GetBucketedRisk\<close>, whose division also has the IEEE results for a
    zero divisor. The prices of \<open>BondAlgoStreamingService::PublishPrice\<close> and the price
    codec are written with the exact operations.
  \<^item> \<open>std::string\<close> is a \<open>string\<close>, \<open>std::vector\<close> a list, \<open>std::map\<close> a partial
    function (or an association list where the code iterates over it).
  \<^item> \<open>exit(0)\<close> and reads outside a vector or string are results of their own.
  \<^item> \<open>Service::Notify\<close> hands the value to every registered listener; a service's
    record keeps the sequence of values it has notified, oldest first.
\<close>

type_synonym long = "64 word"
type_synonym int32 = "32 word"
type_synonym double = real

datatype fault =
  Exit string  \<comment> \<open>\<open>exit(0)\<close> after printing a diagnostic about the given key\<close>
  | OutOfRange  \<comment> \<open>index outside a vector or a string: undefined behaviour in C++\<close>

text \<open>
  Conversions between the number types. A \<open>double\<close> becomes an integer type by
  truncation towards zero; outside the range of the target the C++ result is undefined,
  here it wraps.
\<close>

definition trunc :: "double \<Rightarrow> int" where
  "trunc r = (if 0 \<le> r then \<lfloor>r\<rfloor> else \<lceil>r\<rceil>)"

definition long_of_double :: "double \<Rightarrow> long" where
  "long_of_double r = word_of_int (trunc r)"

definition int32_of_double :: "double \<Rightarrow> int32" where
  "int32_of_double r = word_of_int (trunc r)"

text \<open>
  Rounding to \<open>double\<close>: the nearest number with a significand of 53 bits, the one with
  the even significand when two are equally near. \<open>exponent x\<close> is the integer \<open>e\<close> with
  \<open>2^e \<le> |x| < 2^(e+1)\<close>, found from the bit length of the integer part of \<open>|x|\<close> or of
  its inverse. The range of the exponent of a \<open>double\<close> is not modelled: no overflow to an
  infinity and no subnormal numbers.
\<close>

fun bit_length :: "nat \<Rightarrow> nat" where
  "bit_length n = (if n = 0 then 0 else Suc (bit_length (n div 2)))"

declare bit_length.simps [simp del]

definition exponent :: "real \<Rightarrow> int" where
  "exponent x =
    (let a = \<bar>x\<bar> in
     if 1 \<le> a then int (bit_length (nat \<lfloor>a\<rfloor>)) - 1
     else
       (let k = int (bit_length (nat \<lfloor>1 / a\<rfloor>)) - 1
        in if a = 2 powi (- k) then - k else - (k + 1)))"

definition round_even :: "real \<Rightarrow> int" where
  "round_even y =
    (let f = \<lfloor>y\<rfloor>; d = y - real_of_int f
     in if d < 1 / 2 then f else if 1 / 2 < d then f + 1 else if even f then f else f + 1)"

definition round_to_double :: "real \<Rightarrow> double" where
  "round_to_double x =
    (if x = 0 then 0
     else (let u = 2 powi (exponent x - 52) in real_of_int (round_even (x / u)) * u))"

text \<open>The operations \<open>+\<close>, \<open>-\<close> and \<open>*\<close> on \<open>double\<close>, rounded.\<close>

definition double_add :: "double \<Rightarrow> double \<Rightarrow> double" where
  "double_add a b = round_to_double (a + b)"

definition double_sub :: "double \<Rightarrow> double \<Rightarrow> double" where
  "double_sub a b = round_to_double (a - b)"

definition double_mul :: "double \<Rightarrow> double \<Rightarrow> double" where
  "double_mul a b = round_to_double (a * b)"

text \<open>A \<open>long\<close> becomes the nearest \<open>double\<close>: itself up to \<open>2^53\<close> in magnitude.\<close>

definition double_of_long :: "long \<Rightarrow> double" where
  "double_of_long q = round_to_double (real_of_int (sint q))"

text \<open>An \<open>int\<close> has at most 32 bits and is a \<open>double\<close> as it is.\<close>

definition double_of_int32 :: "int32 \<Rightarrow> double" where
  "double_of_int32 i = real_of_int (sint i)"


text \<open>The operator \<open>%\<close> on \<open>int\<close>: the remainder has the sign of the dividend.\<close>

definition int32_rem :: "int32 \<Rightarrow> int32 \<Rightarrow> int32" where
  "int32_rem a b = word_of_int (sint a smod sint b)"

text \<open>\<open>std::to_string\<close> on an integer: its decimal digits, after a minus sign when it is
  negative.\<close>

definition digit_char :: "nat \<Rightarrow> char" where
  "digit_char d = char_of (48 + d)"

fun string_of_nat :: "nat \<Rightarrow> string" where
  "string_of_nat n =
    (if n < 10 then [digit_char n] else string_of_nat (n div 10) @ [digit_char (n mod 10)])"

declare string_of_nat.simps [simp del]

definition to_string :: "int \<Rightarrow> string" where
  "to_string i = (if i < 0 then CHR ''-'' # string_of_nat (nat (- i)) else string_of_nat (nat i))"

text \<open>Reading a decimal numeral back, to state that \<open>to_string\<close> writes the decimal
  representation.\<close>

definition decimal_value :: "string \<Rightarrow> nat" where
  "decimal_value s = foldl (\<lambda>a c. 10 * a + (of_char c - 48)) 0 s"

definition int_of_decimal :: "string \<Rightarrow> int" where
  "int_of_decimal s =
    (case s of CHR ''-'' # r \<Rightarrow> - int (decimal_value r) | _ \<Rightarrow> int (decimal_value s))"

text \<open>\<open>v[0]\<close> on a vector.\<close>

definition front :: "'a list \<Rightarrow> fault + 'a" where
  "front v = (case v of [] \<Rightarrow> Inl OutOfRange | x # _ \<Rightarrow> Inr x)"

text \<open>
  Modelled from the spec: \<open>products.hpp\<close> (class \<open>Bond\<close>) is not among the sources. A bond
  has an identifier (the CUSIP), a ticker and a coupon; \<open>GetProductId\<close> returns the
  identifier. The maturity date plays no part in what follows and is left out.
\<close>

record Bond =
  productId :: string
  ticker :: string
  coupon :: double

section \<open>bondinfo.hpp\<close>

definition CUSIPToCoupon :: "string \<Rightarrow> double" where
  "CUSIPToCoupon cusip =
    (if cusip = ''91282CAX9'' then 0.00125
     else if cusip = ''91282CBA80'' then 0.00125
     else if cusip = ''91282CAZ4'' then 0.00375
     else if cusip = ''91282CAY7'' then 0.00625
     else if cusip = ''91282CAV3'' then 0.00875
     else if cusip = ''912810ST6'' then 0.01375
     else if cusip = ''912810SS8'' then 0.01625
     else 0.0)"

definition GetCUSIP :: "string list" where
  "GetCUSIP = [''91282CAX9'', ''91282CBA80'', ''91282CAZ4'', ''91282CAY7'',
               ''91282CAV3'', ''912810ST6'', ''912810SS8'']"

text \<open>\<open>BondInfo::GetBond\<close> reads \<open>bond_map\<close>, which \<open>BondInfo::init\<close> fills with
  \<open>Bond(cusip, CUSIP, "T", coupon, maturity)\<close> for every catalogue CUSIP. It is called
  with catalogue CUSIPs only; for any other string the C++ dereferences \<open>bond_map.end()\<close>.\<close>

definition GetBond :: "string \<Rightarrow> Bond" where
  "GetBond cusip = \<lparr>productId = cusip, ticker = ''T'', coupon = CUSIPToCoupon cusip\<rparr>"

definition GetPV01 :: "string \<Rightarrow> double" where
  "GetPV01 cusip =
    (if cusip = ''91282CAX9'' then 0.02
     else if cusip = ''91282CBA80'' then 0.03
     else if cusip = ''91282CAZ4'' then 0.05
     else if cusip = ''91282CAY7'' then 0.07
     else if cusip = ''91282CAV3'' then 0.10
     else if cusip = ''912810ST6'' then 0.20
     else if cusip = ''912810SS8'' then 0.30
     else 0)"

text \<open>
  \<open>FormatPrice\<close>: the fractional notation \<open>I-xyz\<close> of a price, with
  \<open>price = I + xy / 32 + z / 256\<close>.
\<close>

definition FormatPrice :: "double \<Rightarrow> string" where
  "FormatPrice price =
    (let I = int32_of_double (real_of_int \<lfloor>price\<rfloor>);
         xy = int32_of_double (real_of_int \<lfloor>32 * (price - double_of_int32 I)\<rfloor>);
         z = int32_of_double
               (real_of_int \<lfloor>256 * (price - double_of_int32 I - double_of_int32 xy / 32.0)\<rfloor>);
         xy_str = to_string (sint xy);
         xy_str = (if length xy_str = 1 then ''0'' @ xy_str
                   else if length xy_str = 0 then ''00'' else xy_str)
     in to_string (sint I) @ ''-'' @ xy_str @ to_string (sint z))"

text \<open>
  \<open>s[i] - '0'\<close> for a character of the string. \<open>CalculatePrice\<close> reads the characters at
  \<open>size - 1\<close>, \<open>size - 2\<close>, \<open>size - 3\<close>, \<open>size - 5\<close> and \<open>size - 6\<close>; the last of these
  is before the start of a string shorter than six characters.
\<close>

definition digit_value :: "char \<Rightarrow> double" where
  "digit_value c = real_of_int (int (of_char c) - int (of_char CHR ''0''))"

definition CalculatePrice :: "string \<Rightarrow> fault + double" where
  "CalculatePrice s =
    (let size = length s in
     if size < 6 then Inl OutOfRange
     else
       (let price = digit_value (s ! (size - 1)) / 256.0;
            price = price + digit_value (s ! (size - 2)) / 32.0;
            price = price + 10.0 * digit_value (s ! (size - 3)) / 32.0;
            price = price + digit_value (s ! (size - 5));
            price = price + 10.0 * digit_value (s ! (size - 6));
            price = (if size = 7 then price + 100.0 else price)
        in Inr price))"

section \<open>tradebookingservice.hpp: trades\<close>

datatype Side = BUY | SELL

record Trade =
  trade_product :: Bond
  tradeId :: string
  trade_price :: double
  trade_book :: string
  trade_quantity :: long
  trade_side :: Side

section \<open>positionservice.hpp\<close>

text \<open>
  \<open>Position::positions\<close> is a \<open>std::map\<close> from book to quantity that \<open>GetAggregatePosition\<close>
  iterates over: an association list with one entry per book. A new book goes to the
  end of the list; the aggregate is a sum and does not depend on the order.
\<close>

record Position =
  pos_product :: Bond
  positions :: "(string \<times> long) list"

definition Position_ctor :: "Bond \<Rightarrow> Position" where
  "Position_ctor b = \<lparr>pos_product = b, positions = []\<rparr>"

definition GetAggregatePosition :: "Position \<Rightarrow> long" where
  "GetAggregatePosition p = fold (\<lambda>pos position. position + snd pos) (positions p) 0"

text \<open>\<open>positions.find(book)\<close>, then \<open>itr->second += position\<close> on the entry found, or
  \<open>positions.insert\<close> of a new entry when there is none.\<close>

fun find_add_or_insert :: "string \<Rightarrow> long \<Rightarrow> (string \<times> long) list \<Rightarrow> (string \<times> long) list" where
  "find_add_or_insert book position [] = [(book, position)]"
| "find_add_or_insert book position ((k, v) # rest) =
    (if k = book then (k, v + position) # rest
     else (k, v) # find_add_or_insert book position rest)"

definition AddPosition :: "Position \<Rightarrow> string \<Rightarrow> long \<Rightarrow> Side \<Rightarrow> Position" where
  "AddPosition p book position side =
    (let position = (if side = BUY then position else - position)
     in p\<lparr>positions := find_add_or_insert book position (positions p)\<rparr>)"

record BondPositionService =
  bps_positions :: "string \<rightharpoonup> Position"
  bps_notified :: "Position list"

text \<open>\<open>std::map::insert\<close> keeps an entry that is already there.\<close>

definition map_insert :: "('k \<rightharpoonup> 'v) \<Rightarrow> 'k \<Rightarrow> 'v \<Rightarrow> ('k \<rightharpoonup> 'v)" where
  "map_insert m k v = (case m k of None \<Rightarrow> m(k \<mapsto> v) | Some _ \<Rightarrow> m)"

definition BondPositionService_ctor :: BondPositionService where
  "BondPositionService_ctor =
    \<lparr>bps_positions =
       fold (\<lambda>cusip m. map_insert m cusip (Position_ctor (GetBond cusip))) GetCUSIP Map.empty,
     bps_notified = []\<rparr>"

definition AddTrade :: "BondPositionService \<Rightarrow> Trade \<Rightarrow> fault + BondPositionService" where
  "AddTrade s trade =
    (let cusip = productId (trade_product trade);
         book = trade_book trade;
         quantity = trade_quantity trade;
         side = trade_side trade
     in case bps_positions s cusip of
          Some position \<Rightarrow>
            (let position' = AddPosition position book quantity side
             in Inr (s\<lparr>bps_positions := (bps_positions s)(cusip \<mapsto> position'),
                      bps_notified := bps_notified s @ [position']\<rparr>))
        | None \<Rightarrow> Inl (Exit cusip))"

definition BondPositionService_GetData :: "BondPositionService \<Rightarrow> string \<Rightarrow> fault + Position" where
  "BondPositionService_GetData s key =
    (case bps_positions s key of None \<Rightarrow> Inl (Exit key) | Some p \<Rightarrow> Inr p)"

text \<open>A sequence of trades, one \<open>AddTrade\<close> after the other; the process ends at the
  first \<open>exit\<close>.\<close>

fun AddTrades :: "BondPositionService \<Rightarrow> Trade list \<Rightarrow> fault + BondPositionService" where
  "AddTrades s [] = Inr s"
| "AddTrades s (t # ts) =
    (case AddTrade s t of Inl e \<Rightarrow> Inl e | Inr s' \<Rightarrow> AddTrades s' ts)"

text \<open>The signed quantity of a trade, in the arithmetic of \<open>long\<close>.\<close>

definition signed_quantity :: "Trade \<Rightarrow> long" where
  "signed_quantity t = (if trade_side t = BUY then trade_quantity t else - trade_quantity t)"

text \<open>The same as an integer, without the bound of \<open>long\<close>.\<close>

definition signed_amount :: "Trade \<Rightarrow> int" where
  "signed_amount t =
    (if trade_side t = BUY then sint (trade_quantity t) else - sint (trade_quantity t))"

section \<open>marketdataservice.hpp\<close>

datatype PricingSide = BID | OFFER

record Order =
  order_price :: double
  order_quantity :: long
  order_side :: PricingSide

record BidOffer =
  bidOrder :: Order
  offerOrder :: Order

record OrderBook =
  ob_product :: Bond
  bidStack :: "Order list"
  offerStack :: "Order list"

definition GetSpread :: "OrderBook \<Rightarrow> fault + double" where
  "GetSpread ob =
    (case front (offerStack ob) of
       Inl e \<Rightarrow> Inl e
     | Inr offer0 \<Rightarrow>
         (case front (bidStack ob) of
            Inl e \<Rightarrow> Inl e
          | Inr bid0 \<Rightarrow> Inr (double_sub (order_price offer0) (order_price bid0))))"

record BondMarketDataService =
  orderbooks :: "string \<rightharpoonup> OrderBook"
  mds_notified :: "OrderBook list"

definition BondMarketDataService_ctor :: BondMarketDataService where
  "BondMarketDataService_ctor = \<lparr>orderbooks = Map.empty, mds_notified = []\<rparr>"

definition GetBestBidOffer :: "BondMarketDataService \<Rightarrow> string \<Rightarrow> fault + BidOffer" where
  "GetBestBidOffer s product_id =
    (case orderbooks s product_id of
       None \<Rightarrow> Inl (Exit product_id)
     | Some ob \<Rightarrow>
         (case front (offerStack ob) of
            Inl e \<Rightarrow> Inl e
          | Inr offer_order \<Rightarrow>
              (case front (offerStack ob) of
                 Inl e \<Rightarrow> Inl e
               | Inr bid_order \<Rightarrow> Inr \<lparr>bidOrder = bid_order, offerOrder = offer_order\<rparr>)))"

text \<open>\<open>OnMessage\<close>: \<open>erase\<close> the product's entry, \<open>insert\<close> the new book, notify.\<close>

definition BondMarketDataService_OnMessage ::
  "BondMarketDataService \<Rightarrow> OrderBook \<Rightarrow> BondMarketDataService" where
  "BondMarketDataService_OnMessage s ob =
    s\<lparr>orderbooks :=
        map_insert ((orderbooks s)(productId (ob_product ob) := None))
          (productId (ob_product ob)) ob,
      mds_notified := mds_notified s @ [ob]\<rparr>"

section \<open>executionservice.hpp\<close>

datatype OrderType = FOK | IOC | MARKET | LIMIT | STOP

record ExecutionOrder =
  eo_product :: Bond
  eo_side :: PricingSide
  orderId :: string
  orderType :: OrderType
  eo_price :: double
  visibleQuantity :: double
  hiddenQuantity :: double
  parentOrderId :: string
  isChildOrder :: bool

text \<open>The two quantity getters return \<open>long\<close> from the \<open>double\<close> fields.\<close>

definition GetVisibleQuantity :: "ExecutionOrder \<Rightarrow> long" where
  "GetVisibleQuantity e = long_of_double (visibleQuantity e)"

definition GetHiddenQuantity :: "ExecutionOrder \<Rightarrow> long" where
  "GetHiddenQuantity e = long_of_double (hiddenQuantity e)"

record BondAlgoExecutionService =
  aes_count :: int32
  aes_notified :: "ExecutionOrder list"

definition BondAlgoExecutionService_ctor :: BondAlgoExecutionService where
  "BondAlgoExecutionService_ctor = \<lparr>aes_count = 0, aes_notified = []\<rparr>"

definition AlgoExecute ::
  "BondAlgoExecutionService \<Rightarrow> OrderBook \<Rightarrow> fault + BondAlgoExecutionService" where
  "AlgoExecute s orderbook =
    (let count = aes_count s + 1;
         side = (if int32_rem count 2 \<noteq> 0 then BID else OFFER)
     in case GetSpread orderbook of
          Inl e \<Rightarrow> Inl e
        | Inr spread \<Rightarrow>
            if spread > 1.0 / 128 then Inr (s\<lparr>aes_count := count\<rparr>)
            else
              (let order_id = to_string (sint count) in
               case front (if side = BID then bidStack orderbook else offerStack orderbook) of
                 Inl e \<Rightarrow> Inl e
               | Inr price_level \<Rightarrow>
                   (case front (if side = BID then offerStack orderbook
                                else bidStack orderbook) of
                      Inl e \<Rightarrow> Inl e
                    | Inr quantity_level \<Rightarrow>
                        (let price = order_price price_level;
                             quantity = double_of_long (order_quantity quantity_level);
                             hidden_quantity = quantity;
                             order = \<lparr>eo_product = ob_product orderbook,
                                      eo_side = side,
                                      orderId = order_id,
                                      orderType = MARKET,
                                      eo_price = price,
                                      visibleQuantity = quantity,
                                      hiddenQuantity = hidden_quantity,
                                      parentOrderId = order_id,
                                      isChildOrder = False\<rparr>
                         in Inr (s\<lparr>aes_count := count,
                                   aes_notified := aes_notified s @ [order]\<rparr>)))))"

text \<open>\<open>BondAlgoExecutionListener::ProcessAdd\<close> calls \<open>AlgoExecute\<close> for every order book
  that \<open>BondMarketDataService\<close> notifies, so a feed of books is a sequence of calls.\<close>

fun AlgoExecute_all ::
  "BondAlgoExecutionService \<Rightarrow> OrderBook list \<Rightarrow> fault + BondAlgoExecutionService" where
  "AlgoExecute_all s [] = Inr s"
| "AlgoExecute_all s (ob # obs) =
    (case AlgoExecute s ob of Inl e \<Rightarrow> Inl e | Inr s' \<Rightarrow> AlgoExecute_all s' obs)"

section \<open>tradebookingservice.hpp: the service and the listener on executions\<close>

record BondTradeBookingService =
  trades :: "string \<rightharpoonup> Trade"
  tbs_notified :: "Trade list"

definition BondTradeBookingService_ctor :: BondTradeBookingService where
  "BondTradeBookingService_ctor = \<lparr>trades = Map.empty, tbs_notified = []\<rparr>"

definition BookTrade :: "BondTradeBookingService \<Rightarrow> Trade \<Rightarrow> BondTradeBookingService" where
  "BookTrade s trade = s\<lparr>tbs_notified := tbs_notified s @ [trade]\<rparr>"

definition BondTradeBookingService_OnMessage ::
  "BondTradeBookingService \<Rightarrow> Trade \<Rightarrow> BondTradeBookingService" where
  "BondTradeBookingService_OnMessage s trade =
    s\<lparr>trades := map_insert ((trades s)(tradeId trade := None)) (tradeId trade) trade,
      tbs_notified := tbs_notified s @ [trade]\<rparr>"

text \<open>The listener holds a pointer to the service and its own counter; the pair of the
  two is the state that \<open>ProcessAdd\<close> changes.\<close>

record BondTradeBookingListener =
  tbl_service :: BondTradeBookingService
  tbl_count :: int32

definition BondTradeBookingListener_ctor :: "BondTradeBookingService \<Rightarrow> BondTradeBookingListener" where
  "BondTradeBookingListener_ctor service = \<lparr>tbl_service = service, tbl_count = 0\<rparr>"

definition ProcessAdd :: "BondTradeBookingListener \<Rightarrow> ExecutionOrder \<Rightarrow> BondTradeBookingListener" where
  "ProcessAdd l order =
    (let product = eo_product order;
         trade_id = orderId order;
         price = eo_price order;
         count = tbl_count l + 1;
         book = ''TRSY'' @ to_string (sint (1 + int32_rem count 3));
         quantity = GetVisibleQuantity order;
         side = eo_side order;
         order_side = (if side = BID then BUY else SELL);
         trade = \<lparr>trade_product = product, tradeId = trade_id, trade_price = price,
                  trade_book = book, trade_quantity = quantity, trade_side = order_side\<rparr>
     in l\<lparr>tbl_service := BookTrade (tbl_service l) trade, tbl_count := count\<rparr>)"

section \<open>pricingservice.hpp and streamingservice.hpp\<close>







section \<open>inquiryservice.hpp\<close>

datatype InquiryState = RECEIVED | QUOTED | DONE | REJECTED | CUSTOMER_REJECTED

record Inquiry =
  inquiryId :: string
  inq_product :: Bond
  inq_side :: Side
  inq_quantity :: long
  inq_price :: double
  inq_state :: InquiryState

definition QuoteConnector_Publish :: "Inquiry \<Rightarrow> Inquiry" where
  "QuoteConnector_Publish inquiry =
    (if inq_state inquiry = RECEIVED then inquiry\<lparr>inq_state := QUOTED\<rparr>
     else if inq_state inquiry = DONE then inquiry
     else inquiry)"

record BondInquiryService =
  bis_notified :: "Inquiry list"

definition BondInquiryService_ctor :: BondInquiryService where
  "BondInquiryService_ctor = \<lparr>bis_notified = []\<rparr>"

definition RejectInquiry :: "BondInquiryService \<Rightarrow> Inquiry \<Rightarrow> BondInquiryService \<times> Inquiry" where
  "RejectInquiry s inquiry = (s, inquiry)"

text \<open>
  \<open>OnMessage\<close> and \<open>SendQuote\<close> call each other. The inquiry is passed by reference, so
  each returns the inquiry as it has left it, next to the service.
\<close>

function BondInquiryService_OnMessage ::
    "BondInquiryService \<Rightarrow> Inquiry \<Rightarrow> BondInquiryService \<times> Inquiry"
  and SendQuote :: "BondInquiryService \<Rightarrow> Inquiry \<Rightarrow> BondInquiryService \<times> Inquiry" where
  "BondInquiryService_OnMessage s inquiry =
    (let state = inq_state inquiry in
     if state = RECEIVED then SendQuote s (inquiry\<lparr>inq_price := 100\<rparr>)
     else if state = QUOTED then
       (let (s1, inquiry1) = SendQuote s (inquiry\<lparr>inq_state := DONE\<rparr>)
        in (s1\<lparr>bis_notified := bis_notified s1 @ [inquiry1]\<rparr>, inquiry1))
     else
       (let (s1, inquiry1) = RejectInquiry s (inquiry\<lparr>inq_state := REJECTED\<rparr>)
        in (s1\<lparr>bis_notified := bis_notified s1 @ [inquiry1]\<rparr>, inquiry1)))"
| "SendQuote s inquiry =
    (let inquiry1 = QuoteConnector_Publish inquiry in
     if inq_state inquiry1 = QUOTED then BondInquiryService_OnMessage s inquiry1
     else (s, inquiry1))"
  by pat_completeness auto

text \<open>The calls end: a \<open>RECEIVED\<close> inquiry comes back \<open>QUOTED\<close>, a \<open>QUOTED\<close> one is sent
  out as \<open>DONE\<close>, and \<open>SendQuote\<close> calls back only on \<open>QUOTED\<close>.\<close>

termination
  apply (relation "measure (\<lambda>x. case x of
           Inl (s, inquiry) \<Rightarrow>
             (if inq_state inquiry = RECEIVED then 5
              else if inq_state inquiry = QUOTED then 3 else 1)
         | Inr (s, inquiry) \<Rightarrow> (if inq_state inquiry = DONE then 2 else 4))")
  apply (auto simp: QuoteConnector_Publish_def split: if_splits)
  done

section \<open>riskservice.hpp\<close>

record PV01 =
  pv_product :: Bond
  pv01 :: double
  pv_quantity :: long

record BucketedSector =
  sector_products :: "Bond list"
  sector_name :: string

text \<open>
  The result of the division \<open>pv01_value /= quantity\<close>: the rounded quotient, or, when the
  divisor is zero, a NaN (\<open>0 / 0\<close>) or an infinity with the sign of the dividend.
\<close>

datatype quotient = Finite double | NaN | PlusInfinity | MinusInfinity

definition double_div :: "double \<Rightarrow> double \<Rightarrow> quotient" where
  "double_div a b =
    (if b = 0 then (if a = 0 then NaN else if 0 < a then PlusInfinity else MinusInfinity)
     else Finite (round_to_double (a / b)))"

text \<open>\<open>PV01<BucketedSector<Bond>>\<close>: its \<open>pv01\<close> is the result of the division.\<close>

record SectorPV01 =
  spv_product :: BucketedSector
  spv_pv01 :: quotient
  spv_quantity :: long

record BondRiskService =
  risks :: "string \<rightharpoonup> PV01"
  brs_notified :: "PV01 list"

definition BondRiskService_ctor :: BondRiskService where
  "BondRiskService_ctor = \<lparr>risks = Map.empty, brs_notified = []\<rparr>"

definition BondRiskService_AddPosition :: "BondRiskService \<Rightarrow> Position \<Rightarrow> BondRiskService" where
  "BondRiskService_AddPosition s position =
    (let quantity = GetAggregatePosition position;
         cusip = productId (pos_product position);
         pv01_value = GetPV01 cusip;
         pv01_object = \<lparr>pv_product = pos_product position, pv01 = pv01_value,
                        pv_quantity = quantity\<rparr>
     in s\<lparr>brs_notified := brs_notified s @ [pv01_object]\<rparr>)"

definition BondRiskService_GetData :: "BondRiskService \<Rightarrow> string \<Rightarrow> fault + PV01" where
  "BondRiskService_GetData s key =
    (case risks s key of Some v \<Rightarrow> Inr v | None \<Rightarrow> Inl (Exit key))"

text \<open>The loop of \<open>GetBucketedRisk\<close> over the products of the sector, with its two
  accumulators.\<close>

fun bucket_loop ::
  "BondRiskService \<Rightarrow> Bond list \<Rightarrow> double \<Rightarrow> double \<Rightarrow> fault + (double \<times> double)" where
  "bucket_loop s [] pv01_value quantity = Inr (pv01_value, quantity)"
| "bucket_loop s (product # rest) pv01_value quantity =
    (let cusip = productId product in
     case BondRiskService_GetData s cusip of
       Inl e \<Rightarrow> Inl e
     | Inr pv01_bond \<Rightarrow>
         (let quantity = double_add quantity (double_of_long (pv_quantity pv01_bond));
              pv01_value =
                double_add pv01_value
                  (double_mul (double_of_long (pv_quantity pv01_bond)) (pv01 pv01_bond))
          in bucket_loop s rest pv01_value quantity))"

definition GetBucketedRisk :: "BondRiskService \<Rightarrow> BucketedSector \<Rightarrow> fault + SectorPV01" where
  "GetBucketedRisk s sector =
    (case bucket_loop s (sector_products sector) 0 0 of
       Inl e \<Rightarrow> Inl e
     | Inr (pv01_value, quantity) \<Rightarrow>
         Inr \<lparr>spv_product = sector, spv_pv01 = double_div pv01_value quantity,
              spv_quantity = long_of_double quantity\<rparr>)"

text \<open>
  The operations a client of \<open>BondRiskService\<close> has: \<open>AddPosition\<close>, \<open>GetData\<close>,
  \<open>GetBucketedRisk\<close>, and \<open>OnMessage\<close>, which the class inherits from \<open>Service\<close> with an
  empty body. An operation that exits ends the run.
\<close>

datatype risk_op =
  OpAddPosition Position
  | OpGetData string
  | OpGetBucketedRisk BucketedSector
  | OpOnMessage PV01

fun risk_step :: "BondRiskService \<Rightarrow> risk_op \<Rightarrow> fault + BondRiskService" where
  "risk_step s (OpAddPosition position) = Inr (BondRiskService_AddPosition s position)"
| "risk_step s (OpGetData key) =
    (case BondRiskService_GetData s key of Inl e \<Rightarrow> Inl e | Inr _ \<Rightarrow> Inr s)"
| "risk_step s (OpGetBucketedRisk sector) =
    (case GetBucketedRisk s sector of Inl e \<Rightarrow> Inl e | Inr _ \<Rightarrow> Inr s)"
| "risk_step s (OpOnMessage data) = Inr s"

fun risk_run :: "BondRiskService \<Rightarrow> risk_op list \<Rightarrow> fault + BondRiskService" where
  "risk_run s [] = Inr s"
| "risk_run s (op # ops) =
    (case risk_step s op of Inl e \<Rightarrow> Inl e | Inr s' \<Rightarrow> risk_run s' ops)"

section \<open>Numbers and strings\<close>

lemma trunc_of_int: "trunc (real_of_int k) = k"
  by (simp add: trunc_def)

lemma sint_word_of_int_small:
  "- (2 ^ 31) \<le> k \<Longrightarrow> k < 2 ^ 31 \<Longrightarrow> sint (word_of_int k :: int32) = k"
  by (simp add: signed_take_bit_int_eq_self sint_sbintrunc')

lemma sint_of_nat_small: "m < 2 ^ 31 \<Longrightarrow> sint (of_nat m :: int32) = int m"
  by (simp add: signed_of_nat signed_take_bit_int_eq_self)

lemma smod_nonneg: "0 \<le> k \<Longrightarrow> 0 < l \<Longrightarrow> (k::int) smod l = k mod l"
  by (auto simp add: signed_modulo_int_def sgn_if)

lemma smod_2_zero_iff: "(k::int) smod 2 = 0 \<longleftrightarrow> even k"
  by (auto simp: signed_modulo_int_def sgn_if)

lemma smod_2_bounds: "- 1 \<le> (k::int) smod 2 \<and> k smod 2 \<le> 1"
  by (auto simp: signed_modulo_int_def sgn_if)

text \<open>\<open>count % 2\<close> is non-zero exactly for an odd \<open>count\<close>, negative or not.\<close>

lemma int32_rem_2_iff: "int32_rem c 2 \<noteq> 0 \<longleftrightarrow> odd (sint c)"
proof -
  have b: "- 1 \<le> sint c smod 2 \<and> sint c smod 2 \<le> 1" by (rule smod_2_bounds)
  have "(word_of_int (sint c smod 2) :: int32) = 0 \<longleftrightarrow> sint c smod 2 = 0"
  proof
    assume "(word_of_int (sint c smod 2) :: int32) = 0"
    then have "(2::int) ^ 32 dvd sint c smod 2"
      by (simp add: word_of_int_eq_0_iff)
    with b show "sint c smod 2 = 0"
      by (auto dest: zdvd_imp_le simp: dvd_def)
  qed simp
  then show ?thesis by (simp add: int32_rem_def smod_2_zero_iff)
qed

lemma digit_char_simps:
  "digit_char 0 = CHR ''0''" "digit_char 1 = CHR ''1''" "digit_char (Suc 0) = CHR ''1''"
  "digit_char 2 = CHR ''2''" "digit_char 3 = CHR ''3''" "digit_char 4 = CHR ''4''"
  "digit_char 5 = CHR ''5''" "digit_char 6 = CHR ''6''" "digit_char 7 = CHR ''7''"
  "digit_char 8 = CHR ''8''" "digit_char 9 = CHR ''9''"
  by (rule of_char_eqI [where ?'a = nat], simp add: digit_char_def)+

lemma of_char_digit_char: "d < 10 \<Longrightarrow> (of_char (digit_char d) :: nat) = 48 + d"
  by (simp add: digit_char_def)

lemma digit_value_digit_char: "d < 10 \<Longrightarrow> digit_value (digit_char d) = real d"
  by (simp add: digit_value_def digit_char_def)

lemma string_of_nat_1: "n < 10 \<Longrightarrow> string_of_nat n = [digit_char n]"
  by (simp add: string_of_nat.simps)

lemma string_of_nat_2:
  "10 \<le> n \<Longrightarrow> n < 100 \<Longrightarrow> string_of_nat n = [digit_char (n div 10), digit_char (n mod 10)]"
  by (subst string_of_nat.simps) (simp add: string_of_nat_1)

lemma string_of_nat_3:
  "100 \<le> n \<Longrightarrow> n < 1000 \<Longrightarrow>
   string_of_nat n = [digit_char (n div 100), digit_char (n div 10 mod 10), digit_char (n mod 10)]"
  by (subst string_of_nat.simps) (simp add: string_of_nat_2 div_mult2_eq [symmetric])

text \<open>\<open>to_string\<close> writes the decimal representation: reading it back gives the number.\<close>

lemma decimal_value_string_of_nat: "decimal_value (string_of_nat n) = n"
proof (induction n rule: string_of_nat.induct)
  case (1 n)
  show ?case
  proof (cases "n < 10")
    case True
    then show ?thesis
      by (simp add: string_of_nat.simps [of n] decimal_value_def of_char_digit_char)
  next
    case False
    with 1 have "decimal_value (string_of_nat (n div 10)) = n div 10" by simp
    with False show ?thesis
      by (simp add: string_of_nat.simps [of n] decimal_value_def of_char_digit_char)
  qed
qed

lemma string_of_nat_hd: "\<exists>d r. d < 10 \<and> string_of_nat n = digit_char d # r"
proof (induction n rule: string_of_nat.induct)
  case (1 n)
  show ?case
  proof (cases "n < 10")
    case True
    then show ?thesis by (auto simp: string_of_nat.simps [of n])
  next
    case False
    with 1 obtain d r where "d < 10" "string_of_nat (n div 10) = digit_char d # r" by blast
    with False show ?thesis by (auto simp: string_of_nat.simps [of n])
  qed
qed

lemma digit_char_not_minus: "d < 10 \<Longrightarrow> digit_char d \<noteq> CHR ''-''"
proof
  assume "d < 10" "digit_char d = CHR ''-''"
  then have "(of_char (digit_char d) :: nat) = of_char CHR ''-''" by simp
  with \<open>d < 10\<close> show False by (simp add: of_char_digit_char)
qed

lemma int_of_decimal_to_string: "int_of_decimal (to_string i) = i"
proof (cases "i < 0")
  case True
  then show ?thesis
    by (simp add: to_string_def int_of_decimal_def decimal_value_string_of_nat)
next
  case False
  obtain d r where d: "d < 10" and s: "string_of_nat (nat i) = digit_char d # r"
    using string_of_nat_hd by blast
  have "int_of_decimal (string_of_nat (nat i)) = int (decimal_value (string_of_nat (nat i)))"
    unfolding s using digit_char_not_minus [OF d]
    by (simp add: int_of_decimal_def split: list.splits char.splits bool.splits)
  with False show ?thesis
    by (simp add: to_string_def decimal_value_string_of_nat)
qed

section \<open>Rounding to double\<close>

text \<open>The bit length \<open>b\<close> of a positive number \<open>n\<close> has \<open>2^(b-1) \<le> n < 2^b\<close>.\<close>

lemma bit_length_bounds: "0 < n \<Longrightarrow> 2 ^ (bit_length n - 1) \<le> n \<and> n < 2 ^ bit_length n"
proof (induction n rule: bit_length.induct)
  case (1 n)
  show ?case
  proof (cases "n div 2 = 0")
    case True
    with 1(2) have "n = 1" by (cases n) auto
    then show ?thesis by (simp add: bit_length.simps)
  next
    case False
    with 1 have ih: "2 ^ (bit_length (n div 2) - 1) \<le> n div 2" "n div 2 < 2 ^ bit_length (n div 2)"
      by simp_all
    have bl: "bit_length n = Suc (bit_length (n div 2))"
      using 1(2) by (simp add: bit_length.simps [of n])
    have pos: "0 < bit_length (n div 2)"
      using False by (simp add: bit_length.simps [of "n div 2"])
    then obtain j where j: "bit_length (n div 2) = Suc j" by (cases "bit_length (n div 2)") auto
    from ih(1) have "2 * 2 ^ j \<le> 2 * (n div 2)" by (simp add: j)
    also have "\<dots> \<le> n" by simp
    finally have lo: "2 ^ (bit_length n - 1) \<le> n" by (simp add: bl j)
    from ih(2) have "n div 2 + 1 \<le> 2 ^ bit_length (n div 2)" by simp
    then have "2 * (n div 2) + 2 \<le> 2 * 2 ^ bit_length (n div 2)" by simp
    moreover have "n < 2 * (n div 2) + 2" by presburger
    ultimately have hi: "n < 2 ^ bit_length n" by (simp add: bl)
    from lo hi show ?thesis by simp
  qed
qed

text \<open>\<open>exponent x\<close> is the exponent of \<open>x\<close>: the one integer \<open>e\<close> with
  \<open>2^e \<le> |x| < 2^(e+1)\<close>.\<close>

lemma exponent_bounds:
  assumes "x \<noteq> 0"
  shows "2 powi exponent x \<le> \<bar>x\<bar> \<and> \<bar>x\<bar> < 2 powi (exponent x + 1)"
proof (cases "1 \<le> \<bar>x\<bar>")
  case True
  define n where "n = nat \<lfloor>\<bar>x\<bar>\<rfloor>"
  have n_pos: "0 < n" using True by (simp add: n_def)
  have n_le: "real n \<le> \<bar>x\<bar>" and n_gt: "\<bar>x\<bar> < real n + 1"
    using True by (simp_all add: n_def)
  from bit_length_bounds [OF n_pos] have lo: "2 ^ (bit_length n - 1) \<le> n" and hi: "n < 2 ^ bit_length n"
    by simp_all
  have bl_pos: "0 < bit_length n" using n_pos by (simp add: bit_length.simps [of n])
  have e: "exponent x = int (bit_length n) - 1"
    using True by (simp add: exponent_def n_def Let_def)
  have "int (bit_length n) - 1 = int (bit_length n - 1)" using bl_pos by simp
  then have p1: "(2::real) powi exponent x = 2 ^ (bit_length n - 1)"
    by (simp only: e power_int_of_nat)
  have p2: "(2::real) powi (exponent x + 1) = 2 ^ bit_length n"
    by (simp add: e)
  from lo have "real (2 ^ (bit_length n - 1)) \<le> real n" by (rule of_nat_mono)
  with n_le have "real (2 ^ (bit_length n - 1)) \<le> \<bar>x\<bar>" by linarith
  then have a: "(2::real) ^ (bit_length n - 1) \<le> \<bar>x\<bar>" by simp
  from hi have "n + 1 \<le> 2 ^ bit_length n" by simp
  then have "real (n + 1) \<le> real (2 ^ bit_length n)" by (rule of_nat_mono)
  then have "real n + 1 \<le> 2 ^ bit_length n" by simp
  with n_gt have b: "\<bar>x\<bar> < (2::real) ^ bit_length n" by linarith
  from a b show ?thesis by (simp only: p1 p2)
next
  case False
  define a where "a = \<bar>x\<bar>"
  have a_pos: "0 < a" and a_lt: "a < 1" using assms False by (simp_all add: a_def)
  define n where "n = nat \<lfloor>1 / a\<rfloor>"
  have y_ge: "1 \<le> 1 / a" using a_pos a_lt by (simp add: field_simps)
  have n_pos: "0 < n" using y_ge by (simp add: n_def)
  have n_le: "real n \<le> 1 / a" and n_gt: "1 / a < real n + 1"
    using y_ge by (simp_all add: n_def) linarith+
  from bit_length_bounds [OF n_pos] have lo: "2 ^ (bit_length n - 1) \<le> n" and hi: "n < 2 ^ bit_length n"
    by simp_all
  have bl_pos: "0 < bit_length n" using n_pos by (simp add: bit_length.simps [of n])
  define k where "k = bit_length n - 1"
  have bl: "bit_length n = Suc k" using bl_pos by (simp add: k_def)
  have kk: "int (bit_length n) - 1 = int k" by (simp add: bl)
  from lo have "real (2 ^ k) \<le> real n" unfolding k_def by (rule of_nat_mono)
  with n_le have "real (2 ^ k) \<le> 1 / a" by linarith
  then have "(2::real) ^ k \<le> 1 / a" by simp
  then have up: "a \<le> 1 / 2 ^ k" using a_pos by (simp add: field_simps)
  from hi have "n + 1 \<le> 2 ^ Suc k" by (simp add: bl)
  then have "real (n + 1) \<le> real (2 ^ Suc k)" by (rule of_nat_mono)
  then have "real n + 1 \<le> 2 ^ Suc k" by simp
  with n_gt have "1 / a < (2::real) ^ Suc k" by linarith
  then have down: "1 / 2 ^ Suc k < a" using a_pos by (simp add: field_simps)
  have pk: "(2::real) powi (- int k) = 1 / 2 ^ k"
    by (simp add: power_int_minus_divide)
  have pk1: "(2::real) powi (- int (Suc k)) = 1 / 2 ^ Suc k"
    by (simp only: power_int_minus_divide power_int_of_nat)
  have "\<not> 1 \<le> \<bar>x\<bar>" by fact
  then have ex: "exponent x = (if a = 2 powi (- int k) then - int k else - (int k + 1))"
    by (simp add: exponent_def Let_def a_def [symmetric] n_def [symmetric] kk)
  show ?thesis
  proof (cases "a = 2 powi (- int k)")
    case True
    then have e: "exponent x = - int k"
      by (simp add: ex)
    have "(2::real) powi (- int k) < 2 powi (- int k + 1)"
      by (rule power_int_strict_increasing) simp_all
    with True show ?thesis by (simp add: e a_def [symmetric])
  next
    case ne: False
    then have e: "exponent x = - (int k + 1)"
      by (simp add: ex)
    have e': "exponent x = - int (Suc k)" using e by simp
    have e1: "exponent x + 1 = - int k" using e by simp
    from ne up have "a < 1 / 2 ^ k" by (simp add: pk)
    with down show ?thesis
      unfolding a_def [symmetric] e1 pk by (simp only: e' pk1) simp
  qed
qed

lemma exponent_unique:
  assumes "2 powi e \<le> \<bar>x\<bar>" and "\<bar>x\<bar> < 2 powi (e + 1)"
  shows "exponent x = e"
proof -
  have "0 < (2::real) powi e" by simp
  with assms(1) have "0 < \<bar>x\<bar>" by linarith
  then have nz: "x \<noteq> 0" by simp
  note b = exponent_bounds [OF nz]
  have lt1: "(2::real) powi e < 2 powi (exponent x + 1)" using assms(1) b by linarith
  have "e < exponent x + 1"
  proof (rule ccontr)
    assume "\<not> e < exponent x + 1"
    then have "exponent x + 1 \<le> e" by simp
    then have "(2::real) powi (exponent x + 1) \<le> 2 powi e"
      by (rule power_int_increasing) simp
    with lt1 show False by linarith
  qed
  moreover have lt2: "(2::real) powi exponent x < 2 powi (e + 1)" using assms(2) b by linarith
  have "exponent x < e + 1"
  proof (rule ccontr)
    assume "\<not> exponent x < e + 1"
    then have "e + 1 \<le> exponent x" by simp
    then have "(2::real) powi (e + 1) \<le> 2 powi exponent x"
      by (rule power_int_increasing) simp
    with lt2 show False by linarith
  qed
  ultimately show ?thesis by simp
qed

lemma round_even_of_int: "round_even (real_of_int k) = k"
  by (simp add: round_even_def)

text \<open>A number with a significand of at most 53 bits is its own rounding; so is every
  integer up to \<open>2^53\<close> in magnitude.\<close>

lemma powi_shift_down: "0 < b \<Longrightarrow> (2::real) powi (int b - 1 + k) = 2 ^ (b - 1) * 2 powi k"
proof -
  assume "0 < b"
  then have "int b - 1 + k = int (b - 1) + k" by simp
  then have "(2::real) powi (int b - 1 + k) = 2 powi (int (b - 1) + k)" by (rule arg_cong)
  also have "\<dots> = 2 powi int (b - 1) * 2 powi k" by (rule power_int_add) simp
  also have "\<dots> = 2 ^ (b - 1) * 2 powi k" by (simp only: power_int_of_nat)
  finally show ?thesis .
qed

lemma powi_shift_up: "(2::real) powi (int b - 1 + k + 1) = 2 ^ b * 2 powi k"
proof -
  have "int b - 1 + k + 1 = int b + k" by simp
  then have "(2::real) powi (int b - 1 + k + 1) = 2 powi (int b + k)" by (rule arg_cong)
  also have "\<dots> = 2 powi int b * 2 powi k" by (rule power_int_add) simp
  also have "\<dots> = 2 ^ b * 2 powi k" by (simp only: power_int_of_nat)
  finally show ?thesis .
qed

lemma powi_diff_nat: "(2::real) powi (k - int j) = 2 powi k / 2 ^ j"
proof -
  have "(2::real) powi (k - int j) = 2 powi k / 2 powi int j" by (rule power_int_diff) simp
  then show ?thesis by (simp only: power_int_of_nat)
qed

lemma nat_abs_less: "nat \<bar>m\<bar> < 2 ^ 53" if "\<bar>m\<bar> < 2 ^ 53" for m :: int
proof -
  have "int (nat \<bar>m\<bar>) = \<bar>m\<bar>" by simp
  with that have "int (nat \<bar>m\<bar>) < int (2 ^ 53)" by simp
  then show ?thesis by (simp only: of_nat_less_iff)
qed

lemma round_to_double_exact:
  assumes "\<bar>m\<bar> < 2 ^ 53"
  shows "round_to_double (real_of_int m * 2 powi k) = real_of_int m * 2 powi k"
proof (cases "m = 0")
  case True
  then show ?thesis by (simp add: round_to_double_def)
next
  case False
  define n where "n = nat \<bar>m\<bar>"
  define b where "b = bit_length n"
  define x where "x = real_of_int m * 2 powi k"
  have n_pos: "0 < n" using False by (simp add: n_def)
  have n_abs: "real n = \<bar>real_of_int m\<bar>" by (simp add: n_def)
  from bit_length_bounds [OF n_pos] have lo: "2 ^ (b - 1) \<le> n" and hi: "n < 2 ^ b"
    by (simp_all add: b_def)
  have b_pos: "0 < b" using n_pos by (simp add: b_def bit_length.simps [of n])
  have n53: "n < 2 ^ 53" unfolding n_def using assms by (rule nat_abs_less)
  have b53: "b \<le> 53"
  proof (rule ccontr)
    assume "\<not> b \<le> 53"
    then have "53 \<le> b - 1" by simp
    then have "(2::nat) ^ 53 \<le> 2 ^ (b - 1)" by (rule power_increasing) simp
    with lo n53 show False by linarith
  qed
  define j where "j = 53 - b"
  have x_nz: "x \<noteq> 0" using False by (simp add: x_def)
  have pk: "0 < (2::real) powi k" by simp
  have abs_x: "\<bar>x\<bar> = real n * 2 powi k"
    unfolding x_def abs_mult n_abs using pk by simp
  have e_lo: "2 powi (int b - 1 + k) \<le> \<bar>x\<bar>"
  proof -
    from lo have "real (2 ^ (b - 1)) \<le> real n" by (rule of_nat_mono)
    then have "(2::real) ^ (b - 1) \<le> real n" by simp
    then have "(2::real) ^ (b - 1) * 2 powi k \<le> real n * 2 powi k"
      using pk by (rule mult_right_mono [OF _ less_imp_le])
    then show ?thesis by (simp only: abs_x powi_shift_down [OF b_pos])
  qed
  have e_hi: "\<bar>x\<bar> < 2 powi (int b - 1 + k + 1)"
  proof -
    from hi have "real n < real (2 ^ b)" by (simp only: of_nat_less_iff)
    then have "real n < (2::real) ^ b" by simp
    then have "real n * 2 powi k < (2::real) ^ b * 2 powi k"
      using pk by (rule mult_strict_right_mono)
    then show ?thesis by (simp only: abs_x powi_shift_up)
  qed
  have e: "exponent x = int b - 1 + k" using e_lo e_hi by (rule exponent_unique)
  have u: "exponent x - 52 = k - int j" using b53 by (simp add: e j_def)
  note pj = powi_diff_nat [of k j]
  have pow_nz: "(2::real) ^ j \<noteq> 0" by simp
  have pkz: "(2::real) powi k \<noteq> 0" by simp
  have q: "x / 2 powi (k - int j) = real_of_int (m * 2 ^ j)"
  proof -
    have "x / 2 powi (k - int j) = real_of_int m * 2 powi k / (2 powi k / 2 ^ j)"
      by (simp only: x_def pj)
    also have "\<dots> = real_of_int m * 2 ^ j"
      using pkz pow_nz by (simp add: field_simps)
    also have "\<dots> = real_of_int (m * 2 ^ j)" by simp
    finally show ?thesis .
  qed
  have "round_to_double x = real_of_int (round_even (x / 2 powi (k - int j))) * 2 powi (k - int j)"
    unfolding round_to_double_def Let_def u using x_nz by simp
  also have "\<dots> = real_of_int (m * 2 ^ j) * 2 powi (k - int j)"
    by (simp only: q round_even_of_int)
  also have "\<dots> = real_of_int m * 2 ^ j * (2 powi k / 2 ^ j)"
    by (simp only: pj of_int_mult of_int_power of_int_numeral)
  also have "\<dots> = x"
    using pow_nz by (simp add: x_def)
  finally show ?thesis by (simp only: x_def)
qed

lemma round_to_double_of_int:
  assumes "\<bar>k\<bar> \<le> 2 ^ 53"
  shows "round_to_double (real_of_int k) = real_of_int k"
proof (cases "\<bar>k\<bar> < 2 ^ 53")
  case True
  from round_to_double_exact [OF True, of 0] show ?thesis by simp
next
  case False
  with assms have "\<bar>k\<bar> = 2 ^ 53" by linarith
  then have "k = 1 * 2 ^ 53 \<or> k = (- 1) * 2 ^ 53" by linarith
  then have "real_of_int k = real_of_int 1 * 2 powi 53 \<or>
             real_of_int k = real_of_int (- 1) * 2 powi 53"
  proof
    assume "k = 1 * 2 ^ 53"
    then have "real_of_int k = real_of_int (1 * 2 ^ 53)" by (rule arg_cong)
    then show ?thesis by simp
  next
    assume "k = (- 1) * 2 ^ 53"
    then have "real_of_int k = real_of_int ((- 1) * 2 ^ 53)" by (rule arg_cong)
    then show ?thesis by simp
  qed
  moreover have "round_to_double (real_of_int 1 * 2 powi 53) = real_of_int 1 * 2 powi 53"
    by (rule round_to_double_exact) simp
  moreover have "round_to_double (real_of_int (- 1) * 2 powi 53) = real_of_int (- 1) * 2 powi 53"
    by (rule round_to_double_exact) simp
  ultimately show ?thesis by metis
qed

lemma double_of_long_exact:
  "\<bar>sint q\<bar> \<le> 2 ^ 53 \<Longrightarrow> double_of_long q = real_of_int (sint q)"
  unfolding double_of_long_def by (rule round_to_double_of_int)

lemma long_of_double_of_long:
  assumes "\<bar>sint q\<bar> \<le> 2 ^ 53"
  shows "long_of_double (double_of_long q) = q"
  unfolding long_of_double_def double_of_long_exact [OF assms] trunc_of_int by simp

section \<open>Positions: conservation\<close>

lemma fold_add_snd: "fold (\<lambda>pos position. position + snd pos) xs (a::long) = a + sum_list (map snd xs)"
  by (induction xs arbitrary: a) (simp_all add: add.assoc)

lemma GetAggregatePosition_sum: "GetAggregatePosition p = sum_list (map snd (positions p))"
  by (simp add: GetAggregatePosition_def fold_add_snd)

lemma sum_find_add_or_insert:
  "sum_list (map snd (find_add_or_insert b d xs)) = sum_list (map snd xs) + d"
  by (induction xs) (auto simp: add.assoc add.commute)

lemma map_of_find_add_or_insert_same:
  "map_of (find_add_or_insert b d xs) b = Some ((case map_of xs b of None \<Rightarrow> 0 | Some v \<Rightarrow> v) + d)"
  by (induction xs) auto

lemma map_of_find_add_or_insert_other:
  "b' \<noteq> b \<Longrightarrow> map_of (find_add_or_insert b d xs) b' = map_of xs b'"
  by (induction xs) auto

lemma GetAggregatePosition_AddPosition:
  "GetAggregatePosition (AddPosition p b q sd) =
     GetAggregatePosition p + (if sd = BUY then q else - q)"
  by (simp add: GetAggregatePosition_sum AddPosition_def Let_def sum_find_add_or_insert)

lemma AddTrade_positions:
  assumes "AddTrade s t = Inr s'"
  shows "\<exists>p. bps_positions s (productId (trade_product t)) = Some p \<and>
           bps_positions s' = (bps_positions s)(productId (trade_product t) \<mapsto>
              AddPosition p (trade_book t) (trade_quantity t) (trade_side t))"
  using assms by (auto simp: AddTrade_def Let_def split: option.splits)

lemma AddTrade_aggregate:
  assumes "AddTrade s t = Inr s'" and "bps_positions s' c = Some p'"
  shows "\<exists>p. bps_positions s c = Some p \<and>
           GetAggregatePosition p' = GetAggregatePosition p +
             (if productId (trade_product t) = c then signed_quantity t else 0)"
  using AddTrade_positions [OF assms(1)] assms(2)
  by (auto simp: GetAggregatePosition_AddPosition signed_quantity_def split: if_splits)

lemma AddTrades_aggregate:
  assumes "AddTrades s T = Inr s'" and "bps_positions s' c = Some p'"
  shows "\<exists>p. bps_positions s c = Some p \<and>
           GetAggregatePosition p' = GetAggregatePosition p +
             sum_list (map signed_quantity (filter (\<lambda>t. productId (trade_product t) = c) T))"
  using assms
proof (induction T arbitrary: s)
  case Nil
  then show ?case by simp
next
  case (Cons t T)
  from Cons.prems(1) obtain s1 where s1: "AddTrade s t = Inr s1" and rest: "AddTrades s1 T = Inr s'"
    by (auto split: sum.splits)
  from Cons.IH [OF rest Cons.prems(2)] obtain p1 where
    p1: "bps_positions s1 c = Some p1" and
    agg1: "GetAggregatePosition p' = GetAggregatePosition p1 +
             sum_list (map signed_quantity (filter (\<lambda>t. productId (trade_product t) = c) T))"
    by blast
  from AddTrade_aggregate [OF s1 p1] obtain p where
    p: "bps_positions s c = Some p" and
    agg: "GetAggregatePosition p1 = GetAggregatePosition p +
             (if productId (trade_product t) = c then signed_quantity t else 0)"
    by blast
  show ?case using p agg agg1 by (simp add: add.assoc)
qed

lemma AddTrade_dom: "AddTrade s t = Inr s' \<Longrightarrow> dom (bps_positions s') = dom (bps_positions s)"
  by (auto simp: AddTrade_def Let_def split: option.splits if_splits)

lemma AddTrades_dom: "AddTrades s T = Inr s' \<Longrightarrow> dom (bps_positions s') = dom (bps_positions s)"
proof (induction T arbitrary: s)
  case Nil
  then show ?case by simp
next
  case (Cons t T)
  from Cons.prems obtain s1 where s1: "AddTrade s t = Inr s1" and rest: "AddTrades s1 T = Inr s'"
    by (auto split: sum.splits)
  from Cons.IH [OF rest] AddTrade_dom [OF s1] show ?case by simp
qed

lemma ctor_positions:
  "bps_positions BondPositionService_ctor c = Some p \<Longrightarrow> positions p = []"
  by (auto simp: BondPositionService_ctor_def GetCUSIP_def map_insert_def Position_ctor_def split: if_splits)

lemma ctor_dom: "dom (bps_positions BondPositionService_ctor) = set GetCUSIP"
  by (auto simp: BondPositionService_ctor_def GetCUSIP_def map_insert_def Position_ctor_def split: if_splits)

text \<open>The sum of the signed quantities in \<open>long\<close> is the integer sum, reduced to 64 bits.\<close>

lemma word_of_int_signed_amount: "word_of_int (signed_amount t) = signed_quantity t"
  by (simp add: signed_amount_def signed_quantity_def)

lemma sum_signed_quantity:
  "sum_list (map signed_quantity ts) = word_of_int (sum_list (map signed_amount ts))"
  by (induction ts) (simp_all add: word_of_int_signed_amount)

lemma sint_word_of_int_long:
  "- (2 ^ 63) \<le> k \<Longrightarrow> k < 2 ^ 63 \<Longrightarrow> sint (word_of_int k :: long) = k"
  by (simp add: signed_take_bit_int_eq_self sint_sbintrunc')

text \<open>
  Claim C1 (position conservation). After a sequence of trades \<open>T\<close> has gone through
  \<open>BondPositionService::AddTrade\<close> on a freshly constructed service, every catalogue CUSIP
  has a position, and for every CUSIP \<open>c\<close> the value of \<open>GetAggregatePosition\<close> on its
  position is the sum, over the trades of \<open>T\<close> on \<open>c\<close>, of the quantity for a \<open>BUY\<close> and of
  the negated quantity otherwise, in the arithmetic of \<open>long\<close>; read as a signed number
  it is the sum of the signed quantities as integers, whenever that sum fits into a
  \<open>long\<close>. Within a book, \<open>Position::AddPosition\<close> adds the signed quantity to what the
  book holds, 0 for a book that is not there yet, and leaves every other book alone.
\<close>

theorem position_conservation:
  assumes "AddTrades BondPositionService_ctor T = Inr s"
  shows "(\<forall>c \<in> set GetCUSIP. \<exists>p. BondPositionService_GetData s c = Inr p) \<and>
         (\<forall>c p. BondPositionService_GetData s c = Inr p \<longrightarrow>
            GetAggregatePosition p =
              sum_list (map signed_quantity (filter (\<lambda>t. productId (trade_product t) = c) T))) \<and>
         (\<forall>c p. BondPositionService_GetData s c = Inr p \<longrightarrow>
            - (2 ^ 63) \<le> sum_list (map signed_amount
                                    (filter (\<lambda>t. productId (trade_product t) = c) T)) \<longrightarrow>
            sum_list (map signed_amount
                       (filter (\<lambda>t. productId (trade_product t) = c) T)) < 2 ^ 63 \<longrightarrow>
            sint (GetAggregatePosition p) =
              sum_list (map signed_amount (filter (\<lambda>t. productId (trade_product t) = c) T))) \<and>
         (\<forall>p0 book q sd.
            map_of (positions (AddPosition p0 book q sd)) book =
              Some ((case map_of (positions p0) book of None \<Rightarrow> 0 | Some v \<Rightarrow> v)
                    + (if sd = BUY then q else - q)) \<and>
            (\<forall>book'. book' \<noteq> book \<longrightarrow>
               map_of (positions (AddPosition p0 book q sd)) book' = map_of (positions p0) book'))"
proof -
  have aggregate: "GetAggregatePosition p =
      sum_list (map signed_quantity (filter (\<lambda>t. productId (trade_product t) = c) T))"
    if "BondPositionService_GetData s c = Inr p" for c p
  proof -
    from that have "bps_positions s c = Some p"
      by (simp add: BondPositionService_GetData_def split: option.splits)
    from AddTrades_aggregate [OF assms this] obtain p0 where
      p0: "bps_positions BondPositionService_ctor c = Some p0" and
      agg: "GetAggregatePosition p = GetAggregatePosition p0 +
              sum_list (map signed_quantity (filter (\<lambda>t. productId (trade_product t) = c) T))"
      by blast
    from ctor_positions [OF p0] have "GetAggregatePosition p0 = 0"
      by (simp add: GetAggregatePosition_def)
    with agg show ?thesis by simp
  qed
  show ?thesis
  proof (intro conjI allI impI ballI)
    fix c assume "c \<in> set GetCUSIP"
    with AddTrades_dom [OF assms] ctor_dom have "c \<in> dom (bps_positions s)" by simp
    then show "\<exists>p. BondPositionService_GetData s c = Inr p"
      by (auto simp: BondPositionService_GetData_def)
  next
    fix c p assume "BondPositionService_GetData s c = Inr p"
    then show "GetAggregatePosition p =
        sum_list (map signed_quantity (filter (\<lambda>t. productId (trade_product t) = c) T))"
      by (rule aggregate)
  next
    fix c p
    let ?S = "sum_list (map signed_amount (filter (\<lambda>t. productId (trade_product t) = c) T))"
    assume "BondPositionService_GetData s c = Inr p" and "- (2 ^ 63) \<le> ?S" and "?S < 2 ^ 63"
    from aggregate [OF this(1)] have "GetAggregatePosition p = word_of_int ?S"
      by (simp only: sum_signed_quantity)
    with sint_word_of_int_long [OF \<open>- (2 ^ 63) \<le> ?S\<close> \<open>?S < 2 ^ 63\<close>]
    show "sint (GetAggregatePosition p) = ?S" by simp
  next
    fix p0 book q sd
    show "map_of (positions (AddPosition p0 book q sd)) book =
            Some ((case map_of (positions p0) book of None \<Rightarrow> 0 | Some v \<Rightarrow> v)
                  + (if sd = BUY then q else - q))"
      by (simp add: AddPosition_def Let_def map_of_find_add_or_insert_same)
  next
    fix p0 book q sd book' assume "book' \<noteq> (book::string)"
    then show "map_of (positions (AddPosition p0 book q sd)) book' = map_of (positions p0) book'"
      by (simp add: AddPosition_def Let_def map_of_find_add_or_insert_other)
  qed
qed

theorem position_conservation_witness:
  "\<exists>s p. AddTrades BondPositionService_ctor
     [\<lparr>trade_product = GetBond ''91282CAX9'', tradeId = ''T1'', trade_price = 100,
        trade_book = ''TRSY1'', trade_quantity = 1000000, trade_side = BUY\<rparr>,
      \<lparr>trade_product = GetBond ''91282CAX9'', tradeId = ''T2'', trade_price = 100,
        trade_book = ''TRSY2'', trade_quantity = 400000, trade_side = SELL\<rparr>] = Inr s \<and>
     BondPositionService_GetData s ''91282CAX9'' = Inr p \<and>
     GetAggregatePosition p = 600000 \<and>
     map_of (positions p) ''TRSY1'' = Some 1000000 \<and>
     map_of (positions p) ''TRSY2'' = Some (- 400000)"
proof -
  let ?T = "[\<lparr>trade_product = GetBond ''91282CAX9'', tradeId = ''T1'', trade_price = 100,
        trade_book = ''TRSY1'', trade_quantity = 1000000, trade_side = BUY\<rparr>,
      \<lparr>trade_product = GetBond ''91282CAX9'', tradeId = ''T2'', trade_price = 100,
        trade_book = ''TRSY2'', trade_quantity = 400000, trade_side = SELL\<rparr>]"
  obtain s where s: "AddTrades BondPositionService_ctor ?T = Inr s"
    by (simp add: AddTrade_def BondPositionService_ctor_def GetCUSIP_def map_insert_def
        GetBond_def Let_def)
  from position_conservation [OF s] obtain p where
    p: "BondPositionService_GetData s ''91282CAX9'' = Inr p"
    by (auto simp: GetCUSIP_def)
  from position_conservation [OF s] p have
    "GetAggregatePosition p =
       sum_list (map signed_quantity (filter (\<lambda>t. productId (trade_product t) = ''91282CAX9'') ?T))"
    by blast
  then have agg: "GetAggregatePosition p = 600000"
    by (simp add: signed_quantity_def GetBond_def)
  have "bps_positions s ''91282CAX9'' = Some p"
    using p by (simp add: BondPositionService_GetData_def split: option.splits)
  with s have "positions p = [(''TRSY1'', 1000000), (''TRSY2'', - 400000)]"
    by (auto simp add: AddTrade_def BondPositionService_ctor_def GetCUSIP_def map_insert_def
        GetBond_def Let_def AddPosition_def Position_ctor_def)
  then have "map_of (positions p) ''TRSY1'' = Some 1000000 \<and>
     map_of (positions p) ''TRSY2'' = Some (- 400000)" by simp
  with s p agg show ?thesis by blast
qed

section \<open>Algo execution\<close>

text \<open>
  Claim C2 (the algorithm of \<open>BondAlgoExecutionService::AlgoExecute\<close>), as the code has
  it. On an order book with a best bid \<open>bid0\<close> and a best offer \<open>offer0\<close> the call returns,
  the counter has been incremented, and with \<open>c\<close> the incremented counter: the spread is
  what \<open>GetSpread\<close> computes, the \<open>double\<close> nearest to \<open>offer0.price - bid0.price\<close>, which
  is that difference whenever it has a significand of at most 53 bits; nothing is emitted
  when the spread is greater than 1/128; otherwise exactly one order is emitted, whose
  side is \<open>BID\<close> for an odd \<open>c\<close> and \<open>OFFER\<close> for an even one, whose order id is the decimal
  representation of \<open>c\<close>, whose price is the best price of its own side, whose visible
  quantity is the quantity of the best level of the opposite side converted to \<open>double\<close>
  (read back as a \<open>long\<close> it is that quantity whenever its magnitude is at most \<open>2^53\<close>),
  whose hidden quantity is the visible quantity, whose type is \<open>MARKET\<close>, whose parent
  order id is its order id and which is not a child order.
\<close>

theorem AlgoExecute_algorithm:
  assumes bid: "bidStack ob = bid0 # bids" and offer: "offerStack ob = offer0 # offers"
  shows "\<exists>s'. AlgoExecute s ob = Inr s' \<and> aes_count s' = aes_count s + 1 \<and>
     GetSpread ob = Inr (round_to_double (order_price offer0 - order_price bid0)) \<and>
     (\<forall>m k. \<bar>m\<bar> < 2 ^ 53 \<and> order_price offer0 - order_price bid0 = real_of_int m * 2 powi k \<longrightarrow>
        round_to_double (order_price offer0 - order_price bid0) =
          order_price offer0 - order_price bid0) \<and>
     (round_to_double (order_price offer0 - order_price bid0) > 1 / 128 \<longrightarrow>
        aes_notified s' = aes_notified s) \<and>
     (\<not> round_to_double (order_price offer0 - order_price bid0) > 1 / 128 \<longrightarrow>
        (\<exists>order. aes_notified s' = aes_notified s @ [order] \<and>
          eo_product order = ob_product ob \<and>
          eo_side order = (if odd (sint (aes_count s + 1)) then BID else OFFER) \<and>
          orderId order = to_string (sint (aes_count s + 1)) \<and>
          int_of_decimal (orderId order) = sint (aes_count s + 1) \<and>
          eo_price order = (if eo_side order = BID then order_price bid0 else order_price offer0) \<and>
          visibleQuantity order =
            double_of_long (if eo_side order = BID then order_quantity offer0
                            else order_quantity bid0) \<and>
          GetVisibleQuantity order =
            long_of_double
              (double_of_long (if eo_side order = BID then order_quantity offer0
                               else order_quantity bid0)) \<and>
          (\<bar>sint (if eo_side order = BID then order_quantity offer0
                  else order_quantity bid0)\<bar> \<le> 2 ^ 53 \<longrightarrow>
             GetVisibleQuantity order =
               (if eo_side order = BID then order_quantity offer0 else order_quantity bid0)) \<and>
          hiddenQuantity order = visibleQuantity order \<and>
          GetHiddenQuantity order = GetVisibleQuantity order \<and>
          orderType order = MARKET \<and>
          parentOrderId order = orderId order \<and>
          isChildOrder order = False))"
proof -
  let ?d = "order_price offer0 - order_price bid0"
  let ?c = "aes_count s + 1"
  let ?side = "if odd (sint ?c) then BID else OFFER"
  let ?q = "if ?side = BID then order_quantity offer0 else order_quantity bid0"
  let ?order = "\<lparr>eo_product = ob_product ob, eo_side = ?side,
      orderId = to_string (sint ?c), orderType = MARKET,
      eo_price = (if ?side = BID then order_price bid0 else order_price offer0),
      visibleQuantity = double_of_long ?q, hiddenQuantity = double_of_long ?q,
      parentOrderId = to_string (sint ?c), isChildOrder = False\<rparr>"
  let ?s' = "if round_to_double ?d > 1 / 128 then s\<lparr>aes_count := ?c\<rparr>
             else s\<lparr>aes_count := ?c, aes_notified := aes_notified s @ [?order]\<rparr>"
  have spread: "GetSpread ob = Inr (round_to_double ?d)"
    using bid offer by (simp add: GetSpread_def front_def double_sub_def)
  have run: "AlgoExecute s ob = Inr ?s'"
    using bid offer
    by (simp add: AlgoExecute_def spread front_def Let_def int32_rem_2_iff)
  have exact: "\<forall>m k. \<bar>m\<bar> < 2 ^ 53 \<and> ?d = real_of_int m * 2 powi k \<longrightarrow> round_to_double ?d = ?d"
  proof (intro allI impI)
    fix m :: int and k :: int
    assume "\<bar>m\<bar> < 2 ^ 53 \<and> ?d = real_of_int m * 2 powi k"
    then have m: "\<bar>m\<bar> < 2 ^ 53" and d: "?d = real_of_int m * 2 powi k" by simp_all
    from round_to_double_exact [OF m, of k] show "round_to_double ?d = ?d"
      by (simp only: d)
  qed
  have readback: "\<bar>sint ?q\<bar> \<le> 2 ^ 53 \<Longrightarrow> GetVisibleQuantity ?order = ?q"
  proof -
    assume "\<bar>sint ?q\<bar> \<le> 2 ^ 53"
    from long_of_double_of_long [OF this] show ?thesis
      by (simp add: GetVisibleQuantity_def)
  qed
  show ?thesis
  proof (intro exI [where x = ?s'] conjI)
    show "AlgoExecute s ob = Inr ?s'" by (rule run)
    show "aes_count ?s' = aes_count s + 1" by simp
    show "GetSpread ob = Inr (round_to_double ?d)" by (rule spread)
    show "\<forall>m k. \<bar>m\<bar> < 2 ^ 53 \<and> ?d = real_of_int m * 2 powi k \<longrightarrow> round_to_double ?d = ?d"
      by (rule exact)
    show "round_to_double ?d > 1 / 128 \<longrightarrow> aes_notified ?s' = aes_notified s" by simp
    show "\<not> round_to_double ?d > 1 / 128 \<longrightarrow>
        (\<exists>order. aes_notified ?s' = aes_notified s @ [order] \<and>
          eo_product order = ob_product ob \<and>
          eo_side order = (if odd (sint (aes_count s + 1)) then BID else OFFER) \<and>
          orderId order = to_string (sint (aes_count s + 1)) \<and>
          int_of_decimal (orderId order) = sint (aes_count s + 1) \<and>
          eo_price order = (if eo_side order = BID then order_price bid0 else order_price offer0) \<and>
          visibleQuantity order =
            double_of_long (if eo_side order = BID then order_quantity offer0
                            else order_quantity bid0) \<and>
          GetVisibleQuantity order =
            long_of_double
              (double_of_long (if eo_side order = BID then order_quantity offer0
                               else order_quantity bid0)) \<and>
          (\<bar>sint (if eo_side order = BID then order_quantity offer0
                  else order_quantity bid0)\<bar> \<le> 2 ^ 53 \<longrightarrow>
             GetVisibleQuantity order =
               (if eo_side order = BID then order_quantity offer0 else order_quantity bid0)) \<and>
          hiddenQuantity order = visibleQuantity order \<and>
          GetHiddenQuantity order = GetVisibleQuantity order \<and>
          orderType order = MARKET \<and>
          parentOrderId order = orderId order \<and>
          isChildOrder order = False)"
    proof
      assume gate: "\<not> round_to_double ?d > 1 / 128"
      show "\<exists>order. aes_notified ?s' = aes_notified s @ [order] \<and>
          eo_product order = ob_product ob \<and>
          eo_side order = (if odd (sint (aes_count s + 1)) then BID else OFFER) \<and>
          orderId order = to_string (sint (aes_count s + 1)) \<and>
          int_of_decimal (orderId order) = sint (aes_count s + 1) \<and>
          eo_price order = (if eo_side order = BID then order_price bid0 else order_price offer0) \<and>
          visibleQuantity order =
            double_of_long (if eo_side order = BID then order_quantity offer0
                            else order_quantity bid0) \<and>
          GetVisibleQuantity order =
            long_of_double
              (double_of_long (if eo_side order = BID then order_quantity offer0
                               else order_quantity bid0)) \<and>
          (\<bar>sint (if eo_side order = BID then order_quantity offer0
                  else order_quantity bid0)\<bar> \<le> 2 ^ 53 \<longrightarrow>
             GetVisibleQuantity order =
               (if eo_side order = BID then order_quantity offer0 else order_quantity bid0)) \<and>
          hiddenQuantity order = visibleQuantity order \<and>
          GetHiddenQuantity order = GetVisibleQuantity order \<and>
          orderType order = MARKET \<and>
          parentOrderId order = orderId order \<and>
          isChildOrder order = False"
      proof (intro exI [where x = ?order] conjI impI)
        show "aes_notified ?s' = aes_notified s @ [?order]" using gate by simp
        assume "\<bar>sint (if eo_side ?order = BID then order_quantity offer0
                  else order_quantity bid0)\<bar> \<le> 2 ^ 53"
        then have "\<bar>sint ?q\<bar> \<le> 2 ^ 53" by simp
        from readback [OF this]
        show "GetVisibleQuantity ?order =
            (if eo_side ?order = BID then order_quantity offer0 else order_quantity bid0)"
          by simp
      qed (simp_all add: GetVisibleQuantity_def GetHiddenQuantity_def int_of_decimal_to_string)
    qed
  qed
qed

text \<open>The rounding at the values of the examples.\<close>

lemma round_to_double_examples:
  "round_to_double (1 / 256) = 1 / 256"
  "round_to_double (1 / 32) = 1 / 32"
  "round_to_double 1000000 = 1000000"
  "round_to_double 9007199254740993 = 9007199254740992"
  "round_to_double (1 / 128 + 1 / 2 ^ 61) = 1 / 128"
  by (simp_all add: round_to_double_def exponent_def round_even_def bit_length.simps Let_def)

text \<open>The first book of a feed, with best bid 99-311 and best offer 99-312: the spread
  is 1/256, and the order emitted buys at the bid, in the size of the best offer.\<close>

theorem AlgoExecute_algorithm_witness:
  "AlgoExecute BondAlgoExecutionService_ctor
     \<lparr>ob_product = GetBond ''91282CAX9'',
       bidStack = [\<lparr>order_price = 99 + 31 / 32 + 1 / 256, order_quantity = 1000000,
                    order_side = BID\<rparr>],
       offerStack = [\<lparr>order_price = 99 + 31 / 32 + 2 / 256, order_quantity = 1000000,
                      order_side = OFFER\<rparr>]\<rparr> =
   Inr \<lparr>aes_count = 1,
        aes_notified =
          [\<lparr>eo_product = GetBond ''91282CAX9'', eo_side = BID, orderId = ''1'',
            orderType = MARKET, eo_price = 99 + 31 / 32 + 1 / 256,
            visibleQuantity = 1000000, hiddenQuantity = 1000000,
            parentOrderId = ''1'', isChildOrder = False\<rparr>]\<rparr> \<and>
   map GetVisibleQuantity
     (aes_notified
        \<lparr>aes_count = 1,
          aes_notified =
            [\<lparr>eo_product = GetBond ''91282CAX9'', eo_side = BID, orderId = ''1'',
              orderType = MARKET, eo_price = 99 + 31 / 32 + 1 / 256,
              visibleQuantity = 1000000, hiddenQuantity = 1000000,
              parentOrderId = ''1'', isChildOrder = False\<rparr>]\<rparr>) = [1000000]"
proof -
  let ?bid = "\<lparr>order_price = 99 + 31 / 32 + 1 / 256, order_quantity = 1000000,
                order_side = BID\<rparr>"
  let ?offer = "\<lparr>order_price = 99 + 31 / 32 + 2 / 256, order_quantity = 1000000,
                  order_side = OFFER\<rparr>"
  let ?ob = "\<lparr>ob_product = GetBond ''91282CAX9'', bidStack = [?bid], offerStack = [?offer]\<rparr>"
  have bid: "bidStack ?ob = ?bid # []" and offer: "offerStack ?ob = ?offer # []"
    by simp_all
  have gate: "\<not> round_to_double (order_price ?offer - order_price ?bid) > 1 / 128"
    by (simp add: round_to_double_examples)
  have small: "\<bar>sint (1000000 :: long)\<bar> \<le> 2 ^ 53" by simp
  from AlgoExecute_algorithm [OF bid offer, of BondAlgoExecutionService_ctor]
  obtain s' where run: "AlgoExecute BondAlgoExecutionService_ctor ?ob = Inr s'"
    and count: "aes_count s' = aes_count BondAlgoExecutionService_ctor + 1"
    and emit: "\<not> round_to_double (order_price ?offer - order_price ?bid) > 1 / 128 \<longrightarrow>
        (\<exists>order. aes_notified s' = aes_notified BondAlgoExecutionService_ctor @ [order] \<and>
          eo_product order = ob_product ?ob \<and>
          eo_side order =
            (if odd (sint (aes_count BondAlgoExecutionService_ctor + 1)) then BID else OFFER) \<and>
          orderId order = to_string (sint (aes_count BondAlgoExecutionService_ctor + 1)) \<and>
          int_of_decimal (orderId order) = sint (aes_count BondAlgoExecutionService_ctor + 1) \<and>
          eo_price order =
            (if eo_side order = BID then order_price ?bid else order_price ?offer) \<and>
          visibleQuantity order =
            double_of_long (if eo_side order = BID then order_quantity ?offer
                            else order_quantity ?bid) \<and>
          GetVisibleQuantity order =
            long_of_double
              (double_of_long (if eo_side order = BID then order_quantity ?offer
                               else order_quantity ?bid)) \<and>
          (\<bar>sint (if eo_side order = BID then order_quantity ?offer
                  else order_quantity ?bid)\<bar> \<le> 2 ^ 53 \<longrightarrow>
             GetVisibleQuantity order =
               (if eo_side order = BID then order_quantity ?offer else order_quantity ?bid)) \<and>
          hiddenQuantity order = visibleQuantity order \<and>
          GetHiddenQuantity order = GetVisibleQuantity order \<and>
          orderType order = MARKET \<and>
          parentOrderId order = orderId order \<and>
          isChildOrder order = False)"
    by (elim exE conjE) (rule that)
  from emit [THEN mp, OF gate] obtain order where
    emitted: "aes_notified s' = aes_notified BondAlgoExecutionService_ctor @ [order]"
    and product: "eo_product order = ob_product ?ob"
    and side: "eo_side order =
            (if odd (sint (aes_count BondAlgoExecutionService_ctor + 1)) then BID else OFFER)"
    and id: "orderId order = to_string (sint (aes_count BondAlgoExecutionService_ctor + 1))"
    and price: "eo_price order =
            (if eo_side order = BID then order_price ?bid else order_price ?offer)"
    and visible: "visibleQuantity order =
            double_of_long (if eo_side order = BID then order_quantity ?offer
                            else order_quantity ?bid)"
    and readback: "\<bar>sint (if eo_side order = BID then order_quantity ?offer
                  else order_quantity ?bid)\<bar> \<le> 2 ^ 53 \<longrightarrow>
             GetVisibleQuantity order =
               (if eo_side order = BID then order_quantity ?offer else order_quantity ?bid)"
    and hidden: "hiddenQuantity order = visibleQuantity order"
    and type: "orderType order = MARKET"
    and parent: "parentOrderId order = orderId order"
    and child: "isChildOrder order = False"
    by (elim exE conjE) (rule that)
  have side': "eo_side order = BID"
    using side by (simp add: BondAlgoExecutionService_ctor_def)
  have id': "orderId order = ''1''"
    using id by (simp add: BondAlgoExecutionService_ctor_def to_string_def string_of_nat_1
        digit_char_simps)
  have visible': "visibleQuantity order = 1000000"
    using visible side' by (simp add: double_of_long_def round_to_double_examples)
  have read': "GetVisibleQuantity order = 1000000"
    using readback side' small by simp
  have "order = \<lparr>eo_product = GetBond ''91282CAX9'', eo_side = BID, orderId = ''1'',
            orderType = MARKET, eo_price = 99 + 31 / 32 + 1 / 256,
            visibleQuantity = 1000000, hiddenQuantity = 1000000,
            parentOrderId = ''1'', isChildOrder = False\<rparr>"
    using product side' id' price visible' hidden type parent child
    by (cases order) simp
  moreover from count have "aes_count s' = 1"
    by (simp add: BondAlgoExecutionService_ctor_def)
  moreover from emitted have "aes_notified s' = [order]"
    by (simp add: BondAlgoExecutionService_ctor_def)
  ultimately have "s' = \<lparr>aes_count = 1,
        aes_notified =
          [\<lparr>eo_product = GetBond ''91282CAX9'', eo_side = BID, orderId = ''1'',
            orderType = MARKET, eo_price = 99 + 31 / 32 + 1 / 256,
            visibleQuantity = 1000000, hiddenQuantity = 1000000,
            parentOrderId = ''1'', isChildOrder = False\<rparr>]\<rparr>"
    by (cases s') simp
  with run read' \<open>order = _\<close> show ?thesis by simp
qed

text \<open>
  The claim as the specification states it fails in two places. The visible quantity is
  kept in a \<open>double\<close>: a best offer of 9007199254740993 (\<open>2^53 + 1\<close>) gives an order whose
  visible quantity is 9007199254740992. And the gate compares the rounded spread: with a
  best bid at \<open>3 / 2^61\<close> and a best offer at \<open>1/128 + 1 / 2^59\<close> the difference of the two
  prices is greater than 1/128, its rounding is 1/128, and an order is emitted.
\<close>

theorem AlgoExecute_counterexample:
  "(case AlgoExecute BondAlgoExecutionService_ctor
      \<lparr>ob_product = GetBond ''91282CAX9'',
        bidStack = [\<lparr>order_price = 99 + 31 / 32 + 1 / 256, order_quantity = 1000000,
                     order_side = BID\<rparr>],
        offerStack = [\<lparr>order_price = 99 + 31 / 32 + 2 / 256,
                       order_quantity = 9007199254740993, order_side = OFFER\<rparr>]\<rparr> of
      Inl e \<Rightarrow> []
    | Inr s \<Rightarrow> map (\<lambda>order. (eo_side order, GetVisibleQuantity order)) (aes_notified s)) =
     [(BID, 9007199254740992)] \<and>
   (9007199254740992 :: long) \<noteq> 9007199254740993 \<and>
   (1 / 128 + 1 / 2 ^ 59) - 3 / 2 ^ 61 > (1 / 128 :: real) \<and>
   (case AlgoExecute BondAlgoExecutionService_ctor
      \<lparr>ob_product = GetBond ''91282CAX9'',
        bidStack = [\<lparr>order_price = 3 / 2 ^ 61, order_quantity = 1000000,
                     order_side = BID\<rparr>],
        offerStack = [\<lparr>order_price = 1 / 128 + 1 / 2 ^ 59, order_quantity = 1000000,
                       order_side = OFFER\<rparr>]\<rparr> of
      Inl e \<Rightarrow> []
    | Inr s \<Rightarrow> map orderId (aes_notified s)) = [''1'']"
  by (simp add: BondAlgoExecutionService_ctor_def AlgoExecute_def GetSpread_def front_def
      double_sub_def double_of_long_def round_to_double_def exponent_def round_even_def
      bit_length.simps GetVisibleQuantity_def long_of_double_def trunc_def
      Let_def int32_rem_2_iff to_string_def string_of_nat_1 digit_char_simps)

text \<open>
  Claim C3 (sides alternate among the emitted orders). The counter is incremented for
  every book, before the spread gate returns, so a dropped book still flips the side.
  Three books for the same bond, the second with a spread of 1/32: the first and the third
  are the only ones that emit an order, and both orders have side \<open>BID\<close>, with order ids 1
  and 3.
\<close>

theorem AlgoExecute_dropped_book_repeats_side:
  "(case AlgoExecute_all BondAlgoExecutionService_ctor
      [\<lparr>ob_product = GetBond ''91282CAX9'',
         bidStack = [\<lparr>order_price = 99 + 31 / 32 + 1 / 256, order_quantity = 1000000,
                      order_side = BID\<rparr>],
         offerStack = [\<lparr>order_price = 99 + 31 / 32 + 2 / 256, order_quantity = 1000000,
                        order_side = OFFER\<rparr>]\<rparr>,
       \<lparr>ob_product = GetBond ''91282CAX9'',
         bidStack = [\<lparr>order_price = 99 + 30 / 32, order_quantity = 1000000,
                      order_side = BID\<rparr>],
         offerStack = [\<lparr>order_price = 99 + 31 / 32, order_quantity = 1000000,
                        order_side = OFFER\<rparr>]\<rparr>,
       \<lparr>ob_product = GetBond ''91282CAX9'',
         bidStack = [\<lparr>order_price = 99 + 31 / 32 + 1 / 256, order_quantity = 1000000,
                      order_side = BID\<rparr>],
         offerStack = [\<lparr>order_price = 99 + 31 / 32 + 2 / 256, order_quantity = 1000000,
                        order_side = OFFER\<rparr>]\<rparr>] of
      Inl e \<Rightarrow> []
    | Inr s \<Rightarrow> map (\<lambda>order. (orderId order, eo_side order)) (aes_notified s)) =
   [(''1'', BID), (''3'', BID)]"
  by (simp add: BondAlgoExecutionService_ctor_def AlgoExecute_def GetSpread_def front_def
      double_sub_def round_to_double_def exponent_def round_even_def bit_length.simps
      Let_def int32_rem_2_iff to_string_def string_of_nat_1 digit_char_simps)

section \<open>From executions to trades\<close>

text \<open>The book of the trade made from the \<open>m\<close>-th execution.\<close>

lemma book_index:
  assumes "m < 2 ^ 31"
  shows "sint (1 + int32_rem (of_nat m) 3) = 1 + int (m mod 3)"
proof -
  have "sint (of_nat m :: int32) smod sint (3 :: int32) = int (m mod 3)"
    using assms by (simp add: sint_of_nat_small smod_nonneg zmod_int)
  then have "1 + int32_rem (of_nat m) 3 = (of_nat (1 + m mod 3) :: int32)"
    by (simp add: int32_rem_def)
  moreover have "1 + m mod 3 < 2 ^ 31" by simp
  ultimately show ?thesis by (simp only: sint_of_nat_small)
qed

lemma books_cycle:
  "''TRSY'' @ to_string (1 + int (Suc k mod 3)) = [''TRSY2'', ''TRSY3'', ''TRSY1''] ! (k mod 3)"
proof -
  have "k mod 3 = 0 \<or> k mod 3 = 1 \<or> k mod 3 = 2" by presburger
  moreover have "Suc k mod 3 = Suc (k mod 3) mod 3" by presburger
  ultimately show ?thesis
    by (auto simp: to_string_def string_of_nat.simps digit_char_simps)
qed

lemma ProcessAdd_step:
  assumes "tbl_count l = of_nat n" and "Suc n < 2 ^ 31"
  shows "tbl_count (ProcessAdd l e) = of_nat (Suc n)"
    and "tbs_notified (tbl_service (ProcessAdd l e)) =
           tbs_notified (tbl_service l) @
           [\<lparr>trade_product = eo_product e, tradeId = orderId e, trade_price = eo_price e,
              trade_book = ''TRSY'' @ to_string (1 + int (Suc n mod 3)),
              trade_quantity = GetVisibleQuantity e,
              trade_side = (if eo_side e = BID then BUY else SELL)\<rparr>]"
proof -
  have c: "tbl_count l + 1 = of_nat (Suc n)" using assms(1) by simp
  show "tbl_count (ProcessAdd l e) = of_nat (Suc n)"
    using c by (simp add: ProcessAdd_def Let_def)
  show "tbs_notified (tbl_service (ProcessAdd l e)) =
           tbs_notified (tbl_service l) @
           [\<lparr>trade_product = eo_product e, tradeId = orderId e, trade_price = eo_price e,
              trade_book = ''TRSY'' @ to_string (1 + int (Suc n mod 3)),
              trade_quantity = GetVisibleQuantity e,
              trade_side = (if eo_side e = BID then BUY else SELL)\<rparr>]"
    unfolding ProcessAdd_def Let_def c book_index [OF assms(2)]
    by (simp add: BookTrade_def)
qed

lemma ProcessAdd_run:
  assumes "tbl_count l = of_nat n" and "n + length es < 2 ^ 31"
  shows "tbs_notified (tbl_service (foldl ProcessAdd l es)) =
           tbs_notified (tbl_service l) @
           map (\<lambda>(k, e).
                 \<lparr>trade_product = eo_product e, tradeId = orderId e, trade_price = eo_price e,
                   trade_book = ''TRSY'' @ to_string (1 + int (Suc k mod 3)),
                   trade_quantity = GetVisibleQuantity e,
                   trade_side = (if eo_side e = BID then BUY else SELL)\<rparr>)
               (enumerate n es)"
  using assms
proof (induction es arbitrary: l n)
  case Nil
  then show ?case by simp
next
  case (Cons e es)
  from Cons.prems have n: "Suc n < 2 ^ 31" and rest: "Suc n + length es < 2 ^ 31" by simp_all
  note step = ProcessAdd_step [OF Cons.prems(1) n, of e]
  from Cons.IH [OF step(1) rest] step(2) show ?case by simp
qed

text \<open>
  Claim C4 (execution to trade). Every call of \<open>BondTradeBookingListener::ProcessAdd\<close>
  books exactly one trade: the service notifies one trade more, with the order's id,
  product and price, the order's visible quantity as quantity, and side \<open>BUY\<close> for \<open>BID\<close>
  and \<open>SELL\<close> for \<open>OFFER\<close>. Over the executions \<open>es\<close> delivered to a new listener (fewer
  than \<open>2^31\<close>, the range of the \<open>int\<close> counter), the trade of the execution at position
  \<open>k\<close>, counted from 0, has the book \<open>TRSY\<close> followed by \<open>1 + (k + 1) mod 3\<close>: the books go
  \<open>TRSY2\<close>, \<open>TRSY3\<close>, \<open>TRSY1\<close>, \<open>TRSY2\<close>, ...
\<close>

theorem execution_to_trade:
  assumes "length es < 2 ^ 31"
  shows "tbs_notified (tbl_service (foldl ProcessAdd (BondTradeBookingListener_ctor service) es)) =
           tbs_notified service @
           map (\<lambda>(k, e).
                 \<lparr>trade_product = eo_product e, tradeId = orderId e, trade_price = eo_price e,
                   trade_book = ''TRSY'' @ to_string (1 + int (Suc k mod 3)),
                   trade_quantity = GetVisibleQuantity e,
                   trade_side = (if eo_side e = BID then BUY else SELL)\<rparr>)
               (enumerate 0 es) \<and>
         (\<forall>k. ''TRSY'' @ to_string (1 + int (Suc k mod 3)) =
               [''TRSY2'', ''TRSY3'', ''TRSY1''] ! (k mod 3)) \<and>
         (\<forall>l e. \<exists>trade.
            tbs_notified (tbl_service (ProcessAdd l e)) = tbs_notified (tbl_service l) @ [trade] \<and>
            tbl_count (ProcessAdd l e) = tbl_count l + 1 \<and>
            trade_product trade = eo_product e \<and>
            tradeId trade = orderId e \<and>
            trade_price trade = eo_price e \<and>
            trade_quantity trade = GetVisibleQuantity e \<and>
            trade_side trade = (if eo_side e = BID then BUY else SELL))"
proof (intro conjI allI)
  have "tbl_count (BondTradeBookingListener_ctor service) = of_nat 0"
    by (simp add: BondTradeBookingListener_ctor_def)
  from ProcessAdd_run [OF this] assms
  show "tbs_notified (tbl_service (foldl ProcessAdd (BondTradeBookingListener_ctor service) es)) =
           tbs_notified service @
           map (\<lambda>(k, e).
                 \<lparr>trade_product = eo_product e, tradeId = orderId e, trade_price = eo_price e,
                   trade_book = ''TRSY'' @ to_string (1 + int (Suc k mod 3)),
                   trade_quantity = GetVisibleQuantity e,
                   trade_side = (if eo_side e = BID then BUY else SELL)\<rparr>)
               (enumerate 0 es)"
    by (simp add: BondTradeBookingListener_ctor_def)
next
  fix k
  show "''TRSY'' @ to_string (1 + int (Suc k mod 3)) = [''TRSY2'', ''TRSY3'', ''TRSY1''] ! (k mod 3)"
    by (rule books_cycle)
next
  fix l e
  show "\<exists>trade.
            tbs_notified (tbl_service (ProcessAdd l e)) = tbs_notified (tbl_service l) @ [trade] \<and>
            tbl_count (ProcessAdd l e) = tbl_count l + 1 \<and>
            trade_product trade = eo_product e \<and>
            tradeId trade = orderId e \<and>
            trade_price trade = eo_price e \<and>
            trade_quantity trade = GetVisibleQuantity e \<and>
            trade_side trade = (if eo_side e = BID then BUY else SELL)"
    by (simp add: ProcessAdd_def Let_def BookTrade_def)
qed

text \<open>Four executions, alternately \<open>BID\<close> and \<open>OFFER\<close>, into a new listener on a new
  service.\<close>

theorem execution_to_trade_witness:
  "map (\<lambda>t. (tradeId t, trade_book t, trade_quantity t, trade_side t))
     (tbs_notified (tbl_service
        (foldl ProcessAdd (BondTradeBookingListener_ctor BondTradeBookingService_ctor)
           [\<lparr>eo_product = GetBond ''91282CAX9'', eo_side = BID, orderId = ''1'',
              orderType = MARKET, eo_price = 99, visibleQuantity = 1000000,
              hiddenQuantity = 1000000, parentOrderId = ''1'', isChildOrder = False\<rparr>,
            \<lparr>eo_product = GetBond ''91282CAX9'', eo_side = OFFER, orderId = ''2'',
              orderType = MARKET, eo_price = 100, visibleQuantity = 2000000,
              hiddenQuantity = 2000000, parentOrderId = ''2'', isChildOrder = False\<rparr>,
            \<lparr>eo_product = GetBond ''91282CAX9'', eo_side = BID, orderId = ''3'',
              orderType = MARKET, eo_price = 99, visibleQuantity = 3000000,
              hiddenQuantity = 3000000, parentOrderId = ''3'', isChildOrder = False\<rparr>,
            \<lparr>eo_product = GetBond ''91282CAX9'', eo_side = OFFER, orderId = ''4'',
              orderType = MARKET, eo_price = 100, visibleQuantity = 4000000,
              hiddenQuantity = 4000000, parentOrderId = ''4'', isChildOrder = False\<rparr>]))) =
   [(''1'', ''TRSY2'', 1000000, BUY), (''2'', ''TRSY3'', 2000000, SELL),
    (''3'', ''TRSY1'', 3000000, BUY), (''4'', ''TRSY2'', 4000000, SELL)]"
proof -
  let ?es = "[\<lparr>eo_product = GetBond ''91282CAX9'', eo_side = BID, orderId = ''1'',
              orderType = MARKET, eo_price = 99, visibleQuantity = 1000000,
              hiddenQuantity = 1000000, parentOrderId = ''1'', isChildOrder = False\<rparr>,
            \<lparr>eo_product = GetBond ''91282CAX9'', eo_side = OFFER, orderId = ''2'',
              orderType = MARKET, eo_price = 100, visibleQuantity = 2000000,
              hiddenQuantity = 2000000, parentOrderId = ''2'', isChildOrder = False\<rparr>,
            \<lparr>eo_product = GetBond ''91282CAX9'', eo_side = BID, orderId = ''3'',
              orderType = MARKET, eo_price = 99, visibleQuantity = 3000000,
              hiddenQuantity = 3000000, parentOrderId = ''3'', isChildOrder = False\<rparr>,
            \<lparr>eo_product = GetBond ''91282CAX9'', eo_side = OFFER, orderId = ''4'',
              orderType = MARKET, eo_price = 100, visibleQuantity = 4000000,
              hiddenQuantity = 4000000, parentOrderId = ''4'', isChildOrder = False\<rparr>]"
  have "length ?es < 2 ^ 31" by simp
  from execution_to_trade [OF this, of BondTradeBookingService_ctor]
  have "tbs_notified (tbl_service
          (foldl ProcessAdd (BondTradeBookingListener_ctor BondTradeBookingService_ctor) ?es)) =
        tbs_notified BondTradeBookingService_ctor @
           map (\<lambda>(k, e).
                 \<lparr>trade_product = eo_product e, tradeId = orderId e, trade_price = eo_price e,
                   trade_book = ''TRSY'' @ to_string (1 + int (Suc k mod 3)),
                   trade_quantity = GetVisibleQuantity e,
                   trade_side = (if eo_side e = BID then BUY else SELL)\<rparr>)
               (enumerate 0 ?es)"
    by (rule conjunct1)
  then show ?thesis
    by (simp add: BondTradeBookingService_ctor_def GetVisibleQuantity_def long_of_double_def
        trunc_def to_string_def string_of_nat_1 digit_char_simps)
qed

section \<open>Algo streaming\<close>







section \<open>Market data: best bid and offer\<close>

text \<open>
  Claim C6 (best bid and offer). \<open>GetBestBidOffer\<close> reads index 0 of the offer stack for
  both orders of the pair. With a cached book whose best bid is 99 and whose best offer
  is 100, the pair returned has the offer at 100 as its bid order: the best bid is not
  returned.
\<close>

theorem GetBestBidOffer_bid_is_offer:
  "GetBestBidOffer
     (BondMarketDataService_OnMessage BondMarketDataService_ctor
        \<lparr>ob_product = GetBond ''91282CAX9'',
          bidStack = [\<lparr>order_price = 99, order_quantity = 1000000, order_side = BID\<rparr>],
          offerStack = [\<lparr>order_price = 100, order_quantity = 1000000, order_side = OFFER\<rparr>]\<rparr>)
     ''91282CAX9'' =
   Inr \<lparr>bidOrder = \<lparr>order_price = 100, order_quantity = 1000000, order_side = OFFER\<rparr>,
        offerOrder = \<lparr>order_price = 100, order_quantity = 1000000, order_side = OFFER\<rparr>\<rparr>"
  by (simp add: GetBestBidOffer_def BondMarketDataService_OnMessage_def
      BondMarketDataService_ctor_def map_insert_def GetBond_def front_def)

section \<open>Inquiries\<close>

lemma OnMessage_QUOTED:
  assumes "inq_state inq = QUOTED"
  shows "BondInquiryService_OnMessage s inq =
     (s\<lparr>bis_notified := bis_notified s @ [inq\<lparr>inq_state := DONE\<rparr>]\<rparr>, inq\<lparr>inq_state := DONE\<rparr>)"
  using assms by (simp add: QuoteConnector_Publish_def)

lemma OnMessage_RECEIVED:
  assumes "inq_state inq = RECEIVED"
  shows "BondInquiryService_OnMessage s inq =
     (s\<lparr>bis_notified := bis_notified s @ [inq\<lparr>inq_price := 100, inq_state := DONE\<rparr>]\<rparr>,
      inq\<lparr>inq_price := 100, inq_state := DONE\<rparr>)"
  using assms by (simp add: QuoteConnector_Publish_def)

lemma OnMessage_other:
  assumes "inq_state inq \<noteq> RECEIVED" "inq_state inq \<noteq> QUOTED"
  shows "BondInquiryService_OnMessage s inq =
     (s\<lparr>bis_notified := bis_notified s @ [inq\<lparr>inq_state := REJECTED\<rparr>]\<rparr>,
      inq\<lparr>inq_state := REJECTED\<rparr>)"
  using assms by (simp add: RejectInquiry_def)

text \<open>
  Claim C7 (the life of an inquiry). For an inquiry that enters \<open>OnMessage\<close> in state
  \<open>RECEIVED\<close>: the price is set to 100; the quote connector turns the state into \<open>QUOTED\<close>,
  and \<open>SendQuote\<close> then runs \<open>OnMessage\<close> a second time, on the quoted inquiry; the second
  pass sets the state to \<open>DONE\<close>; over the whole call the listeners are notified once, of
  the inquiry with price 100 in state \<open>DONE\<close>. An inquiry that enters in a state other than
  \<open>RECEIVED\<close> and \<open>QUOTED\<close> is set to \<open>REJECTED\<close> and the listeners are notified once, of the
  rejected inquiry.
\<close>

theorem inquiry_lifecycle:
  "(inq_state inq = RECEIVED \<longrightarrow>
      QuoteConnector_Publish (inq\<lparr>inq_price := 100\<rparr>) = inq\<lparr>inq_price := 100, inq_state := QUOTED\<rparr> \<and>
      SendQuote s (inq\<lparr>inq_price := 100\<rparr>) =
        BondInquiryService_OnMessage s (inq\<lparr>inq_price := 100, inq_state := QUOTED\<rparr>) \<and>
      BondInquiryService_OnMessage s (inq\<lparr>inq_price := 100, inq_state := QUOTED\<rparr>) =
        (s\<lparr>bis_notified := bis_notified s @ [inq\<lparr>inq_price := 100, inq_state := DONE\<rparr>]\<rparr>,
         inq\<lparr>inq_price := 100, inq_state := DONE\<rparr>) \<and>
      BondInquiryService_OnMessage s inq =
        (s\<lparr>bis_notified := bis_notified s @ [inq\<lparr>inq_price := 100, inq_state := DONE\<rparr>]\<rparr>,
         inq\<lparr>inq_price := 100, inq_state := DONE\<rparr>)) \<and>
   (inq_state inq \<noteq> RECEIVED \<and> inq_state inq \<noteq> QUOTED \<longrightarrow>
      BondInquiryService_OnMessage s inq =
        (s\<lparr>bis_notified := bis_notified s @ [inq\<lparr>inq_state := REJECTED\<rparr>]\<rparr>,
         inq\<lparr>inq_state := REJECTED\<rparr>))"
proof (intro conjI impI)
  assume r: "inq_state inq = RECEIVED"
  then show "QuoteConnector_Publish (inq\<lparr>inq_price := 100\<rparr>) =
      inq\<lparr>inq_price := 100, inq_state := QUOTED\<rparr>"
    by (simp add: QuoteConnector_Publish_def)
  from r show "SendQuote s (inq\<lparr>inq_price := 100\<rparr>) =
      BondInquiryService_OnMessage s (inq\<lparr>inq_price := 100, inq_state := QUOTED\<rparr>)"
    by (simp add: QuoteConnector_Publish_def)
  have "inq_state (inq\<lparr>inq_price := 100, inq_state := QUOTED\<rparr>) = QUOTED" by simp
  from OnMessage_QUOTED [OF this, of s]
  show "BondInquiryService_OnMessage s (inq\<lparr>inq_price := 100, inq_state := QUOTED\<rparr>) =
        (s\<lparr>bis_notified := bis_notified s @ [inq\<lparr>inq_price := 100, inq_state := DONE\<rparr>]\<rparr>,
         inq\<lparr>inq_price := 100, inq_state := DONE\<rparr>)"
    by simp
  from r show "BondInquiryService_OnMessage s inq =
        (s\<lparr>bis_notified := bis_notified s @ [inq\<lparr>inq_price := 100, inq_state := DONE\<rparr>]\<rparr>,
         inq\<lparr>inq_price := 100, inq_state := DONE\<rparr>)"
    by (rule OnMessage_RECEIVED)
next
  assume "inq_state inq \<noteq> RECEIVED \<and> inq_state inq \<noteq> QUOTED"
  then have "inq_state inq \<noteq> RECEIVED" and "inq_state inq \<noteq> QUOTED" by simp_all
  then show "BondInquiryService_OnMessage s inq =
        (s\<lparr>bis_notified := bis_notified s @ [inq\<lparr>inq_state := REJECTED\<rparr>]\<rparr>,
         inq\<lparr>inq_state := REJECTED\<rparr>)"
    by (rule OnMessage_other)
qed

text \<open>The inquiry \<open>Q1\<close> as the inquiry connector builds it, and the same inquiry entering
  as \<open>CUSTOMER_REJECTED\<close>.\<close>

theorem inquiry_lifecycle_witness:
  "BondInquiryService_OnMessage BondInquiryService_ctor
     \<lparr>inquiryId = ''Q1'', inq_product = GetBond ''91282CAX9'', inq_side = BUY,
       inq_quantity = 0, inq_price = 0, inq_state = RECEIVED\<rparr> =
   (\<lparr>bis_notified =
       [\<lparr>inquiryId = ''Q1'', inq_product = GetBond ''91282CAX9'', inq_side = BUY,
          inq_quantity = 0, inq_price = 100, inq_state = DONE\<rparr>]\<rparr>,
    \<lparr>inquiryId = ''Q1'', inq_product = GetBond ''91282CAX9'', inq_side = BUY,
      inq_quantity = 0, inq_price = 100, inq_state = DONE\<rparr>) \<and>
   BondInquiryService_OnMessage BondInquiryService_ctor
     \<lparr>inquiryId = ''Q1'', inq_product = GetBond ''91282CAX9'', inq_side = BUY,
       inq_quantity = 0, inq_price = 0, inq_state = CUSTOMER_REJECTED\<rparr> =
   (\<lparr>bis_notified =
       [\<lparr>inquiryId = ''Q1'', inq_product = GetBond ''91282CAX9'', inq_side = BUY,
          inq_quantity = 0, inq_price = 0, inq_state = REJECTED\<rparr>]\<rparr>,
    \<lparr>inquiryId = ''Q1'', inq_product = GetBond ''91282CAX9'', inq_side = BUY,
      inq_quantity = 0, inq_price = 0, inq_state = REJECTED\<rparr>)"
proof -
  let ?r = "\<lparr>inquiryId = ''Q1'', inq_product = GetBond ''91282CAX9'', inq_side = BUY,
       inq_quantity = 0, inq_price = 0, inq_state = RECEIVED\<rparr>"
  let ?c = "\<lparr>inquiryId = ''Q1'', inq_product = GetBond ''91282CAX9'', inq_side = BUY,
       inq_quantity = 0, inq_price = 0, inq_state = CUSTOMER_REJECTED\<rparr>"
  have r: "inq_state ?r = RECEIVED" by simp
  have c: "inq_state ?c \<noteq> RECEIVED \<and> inq_state ?c \<noteq> QUOTED" by simp
  from inquiry_lifecycle [of ?r BondInquiryService_ctor] r
  have "BondInquiryService_OnMessage BondInquiryService_ctor ?r =
        (BondInquiryService_ctor\<lparr>bis_notified := bis_notified BondInquiryService_ctor @
            [?r\<lparr>inq_price := 100, inq_state := DONE\<rparr>]\<rparr>,
         ?r\<lparr>inq_price := 100, inq_state := DONE\<rparr>)"
    by blast
  moreover from inquiry_lifecycle [of ?c BondInquiryService_ctor] c
  have "BondInquiryService_OnMessage BondInquiryService_ctor ?c =
        (BondInquiryService_ctor\<lparr>bis_notified := bis_notified BondInquiryService_ctor @
            [?c\<lparr>inq_state := REJECTED\<rparr>]\<rparr>,
         ?c\<lparr>inq_state := REJECTED\<rparr>)"
    by blast
  ultimately show ?thesis
    by (simp add: BondInquiryService_ctor_def)
qed

section \<open>Risk: the cache and the bucketed risk\<close>


lemma risk_step_risks: "risk_step s op = Inr s' \<Longrightarrow> risks s' = risks s"
  by (cases op) (auto simp: BondRiskService_AddPosition_def Let_def split: sum.splits)

lemma risk_run_risks: "risk_run s ops = Inr s' \<Longrightarrow> risks s' = risks s"
proof (induction ops arbitrary: s)
  case Nil
  then show ?case by simp
next
  case (Cons op ops)
  from Cons.prems obtain s1 where s1: "risk_step s op = Inr s1"
    and rest: "risk_run s1 ops = Inr s'"
    by (auto split: sum.splits)
  from Cons.IH [OF rest] risk_step_risks [OF s1] show ?case by simp
qed




text \<open>
  Claim C10 (the cache of the risk service is never filled). \<open>AddPosition\<close> builds a PV01
  from the position and notifies it, and leaves \<open>risks\<close> as it is. So after every sequence
  of operations on a new \<open>BondRiskService\<close> that has not exited, \<open>risks\<close> is empty, and
  \<open>GetData\<close> takes the not-found branch and exits for every key.
\<close>

theorem risks_never_filled:
  assumes "risk_run BondRiskService_ctor ops = Inr s"
  shows "risks s = Map.empty \<and>
         (\<forall>key. BondRiskService_GetData s key = Inl (Exit key)) \<and>
         (\<forall>key. risk_step s (OpGetData key) = Inl (Exit key)) \<and>
         (\<forall>s0 position.
            risks (BondRiskService_AddPosition s0 position) = risks s0 \<and>
            brs_notified (BondRiskService_AddPosition s0 position) =
              brs_notified s0 @
              [\<lparr>pv_product = pos_product position,
                 pv01 = GetPV01 (productId (pos_product position)),
                 pv_quantity = GetAggregatePosition position\<rparr>])"
proof -
  from risk_run_risks [OF assms] have empty: "risks s = Map.empty"
    by (simp add: BondRiskService_ctor_def)
  then show ?thesis
    by (simp add: BondRiskService_GetData_def BondRiskService_AddPosition_def Let_def)
qed

text \<open>The position of the 2Y bond after a purchase of 1000000 is added; \<open>GetData\<close> for the
  bond exits all the same.\<close>

theorem risks_never_filled_witness:
  "\<exists>s. risk_run BondRiskService_ctor
          [OpAddPosition
             (AddPosition (Position_ctor (GetBond ''91282CAX9'')) ''TRSY1'' 1000000 BUY)] = Inr s \<and>
        brs_notified s =
          [\<lparr>pv_product = GetBond ''91282CAX9'', pv01 = 0.02, pv_quantity = 1000000\<rparr>] \<and>
        risks s = Map.empty \<and>
        BondRiskService_GetData s ''91282CAX9'' = Inl (Exit ''91282CAX9'')"
proof -
  let ?position = "AddPosition (Position_ctor (GetBond ''91282CAX9'')) ''TRSY1'' 1000000 BUY"
  let ?s = "BondRiskService_AddPosition BondRiskService_ctor ?position"
  have run: "risk_run BondRiskService_ctor [OpAddPosition ?position] = Inr ?s"
    by simp
  have notified: "brs_notified ?s =
      [\<lparr>pv_product = GetBond ''91282CAX9'', pv01 = 0.02, pv_quantity = 1000000\<rparr>]"
    by (simp add: BondRiskService_AddPosition_def BondRiskService_ctor_def Let_def
        AddPosition_def Position_ctor_def GetAggregatePosition_def GetBond_def GetPV01_def)
  note cache = risks_never_filled [OF run]
  from cache have empty: "risks ?s = Map.empty"
    by (rule conjunct1)
  from cache have "\<forall>key. BondRiskService_GetData ?s key = Inl (Exit key)"
    by (rule conjunct2 [THEN conjunct1])
  then have exits: "BondRiskService_GetData ?s ''91282CAX9'' = Inl (Exit ''91282CAX9'')"
    by (rule spec)
  from run notified empty exits show ?thesis
    by (intro exI [where x = ?s] conjI)
qed

section \<open>The price codec\<close>

lemma int32_round_trip:
  "- (2 ^ 31) \<le> k \<Longrightarrow> k < 2 ^ 31 \<Longrightarrow> double_of_int32 (int32_of_double (real_of_int k)) = real_of_int k"
  unfolding double_of_int32_def int32_of_double_def trunc_of_int
  by (simp only: sint_word_of_int_small)

lemma sint_int32_of_double:
  "- (2 ^ 31) \<le> k \<Longrightarrow> k < 2 ^ 31 \<Longrightarrow> sint (int32_of_double (real_of_int k)) = k"
  unfolding int32_of_double_def trunc_of_int
  by (simp only: sint_word_of_int_small)

lemma FormatPrice_parts:
  fixes I XY Z :: int
  assumes I: "- (2 ^ 31) \<le> I" "I < 2 ^ 31" and XY: "0 \<le> XY" "XY \<le> 31" and Z: "0 \<le> Z" "Z \<le> 7"
  shows "FormatPrice (real_of_int I + real_of_int XY / 32 + real_of_int Z / 256) =
           to_string I @ ''-'' @
           (if length (to_string XY) = 1 then ''0'' @ to_string XY else to_string XY) @ to_string Z"
proof -
  let ?p = "real_of_int I + real_of_int XY / 32 + real_of_int Z / 256"
  have fI: "\<lfloor>?p\<rfloor> = I"
    using XY Z by (intro floor_unique) (simp_all add: field_simps)
  have dI: "double_of_int32 (int32_of_double (real_of_int I)) = real_of_int I"
    using I by (rule int32_round_trip)
  have sI: "sint (int32_of_double (real_of_int I)) = I"
    using I by (rule sint_int32_of_double)
  have fXY: "\<lfloor>32 * (?p - real_of_int I)\<rfloor> = XY"
    using XY Z by (intro floor_unique) (simp_all add: field_simps)
  have bXY: "- (2 ^ 31) \<le> XY" "XY < 2 ^ 31" using XY by simp_all
  have dXY: "double_of_int32 (int32_of_double (real_of_int XY)) = real_of_int XY"
    using bXY by (rule int32_round_trip)
  have sXY: "sint (int32_of_double (real_of_int XY)) = XY"
    using bXY by (rule sint_int32_of_double)
  have fZ: "\<lfloor>256 * (?p - real_of_int I - real_of_int XY / 32.0)\<rfloor> = Z"
    by (intro floor_unique) (simp_all add: field_simps)
  have bZ: "- (2 ^ 31) \<le> Z" "Z < 2 ^ 31" using Z by simp_all
  have sZ: "sint (int32_of_double (real_of_int Z)) = Z"
    using bZ by (rule sint_int32_of_double)
  have len: "length (to_string XY) \<noteq> 0"
    by (simp add: to_string_def string_of_nat.simps [of "nat XY"] string_of_nat.simps [of "nat (- XY)"])
  show ?thesis
    unfolding FormatPrice_def Let_def fI dI sI fXY dXY sXY fZ sZ
    using len by simp
qed


lemma pad2:
  assumes "0 \<le> XY" "XY \<le> 31"
  shows "(if length (to_string XY) = 1 then ''0'' @ to_string XY else to_string XY) =
           [digit_char (nat XY div 10), digit_char (nat XY mod 10)]"
proof (cases "XY < 10")
  case True
  then have "to_string XY = [digit_char (nat XY)]"
    using assms by (simp add: to_string_def string_of_nat_1)
  moreover have "digit_char 0 = CHR ''0''"
    by (rule of_char_eqI [where ?'a = nat]) (simp add: digit_char_def)
  ultimately show ?thesis using True assms by simp
next
  case False
  then have "to_string XY = [digit_char (nat XY div 10), digit_char (nat XY mod 10)]"
    using assms by (simp add: to_string_def string_of_nat_2)
  then show ?thesis by simp
qed

lemma digits_sum_2: "real (n mod 10) + 10 * real (n div 10) = real n"
proof -
  have "n mod 10 + 10 * (n div 10) = n" by simp
  then have "real (n mod 10 + 10 * (n div 10)) = real n" by (rule arg_cong)
  then show ?thesis by (simp only: of_nat_add of_nat_mult of_nat_numeral)
qed

lemma frac_sum: "real z / 256 + real (x mod 10) / 32 + 10 * real (x div 10) / 32 =
      real x / 32 + real z / 256"
proof -
  have "real (x mod 10) / 32 + 10 * real (x div 10) / 32 = (real (x mod 10) + 10 * real (x div 10)) / 32"
    by (simp only: add_divide_distrib)
  also have "\<dots> = real x / 32" by (simp only: digits_sum_2)
  finally show ?thesis by simp
qed

lemma digits_sum_3: "100 \<le> i \<Longrightarrow> i \<le> 199 \<Longrightarrow> i mod 10 + 10 * (i div 10 mod 10) + 100 = (i::nat)"
proof -
  assume a: "100 \<le> i" "i \<le> 199"
  have "i div 10 div 10 = i div 100" by (simp add: div_mult2_eq [symmetric])
  moreover have "i div 100 = 1" using a by simp
  ultimately have h: "i div 10 div 10 = 1" by simp
  have "i div 10 = 10 * (i div 10 div 10) + i div 10 mod 10" by simp
  with h have t: "i div 10 = 10 + i div 10 mod 10" by simp
  define q r where "q = i div 10 mod 10" and "r = i mod 10"
  have "i = 10 * (i div 10) + i mod 10" by simp
  then have "i = 10 * (10 + q) + r" using t unfolding q_def r_def by simp
  then show ?thesis unfolding q_def [symmetric] r_def [symmetric] by (simp add: algebra_simps)
qed


text \<open>
  Claim C9 (the price codec round trip), as the code has it. \<open>CalculatePrice\<close> reads two
  digits before the dash, and takes a third digit before them to be a 1. So for a price
  \<open>p = I + XY / 32 + Z / 256\<close> with \<open>10 \<le> I \<le> 199\<close>, \<open>0 \<le> XY \<le> 31\<close> and \<open>0 \<le> Z \<le> 7\<close>,
  \<open>CalculatePrice\<close> on \<open>FormatPrice p\<close> returns \<open>p\<close> itself, which is within 1/256 of \<open>p\<close>.
\<close>

theorem price_codec_round_trip:
  fixes I XY Z :: int
  assumes I: "10 \<le> I" "I \<le> 199" and XY: "0 \<le> XY" "XY \<le> 31" and Z: "0 \<le> Z" "Z \<le> 7"
  shows "CalculatePrice (FormatPrice (real_of_int I + real_of_int XY / 32 + real_of_int Z / 256)) =
           Inr (real_of_int I + real_of_int XY / 32 + real_of_int Z / 256)"
proof -
  let ?p = "real_of_int I + real_of_int XY / 32 + real_of_int Z / 256"
  define i x z where "i = nat I" and "x = nat XY" and "z = nat Z"
  have I_eq: "real_of_int I = real i" and XY_eq: "real_of_int XY = real x"
    and Z_eq: "real_of_int Z = real z"
    using I XY Z by (simp_all add: i_def x_def z_def)
  have x10: "x div 10 < 10" "x mod 10 < 10" and z10: "z < 10"
    using XY Z by (simp_all add: x_def z_def)
  have sz: "to_string Z = [digit_char z]"
    using Z by (simp add: to_string_def string_of_nat_1 z_def)
  have "- (2 ^ 31) \<le> I" "I < 2 ^ 31" using I by simp_all
  from FormatPrice_parts [OF this XY Z]
  have fmt: "FormatPrice ?p =
      to_string I @ ''-'' @ [digit_char (x div 10), digit_char (x mod 10), digit_char z]"
    unfolding pad2 [OF XY] sz x_def by simp
  note frac = frac_sum [of z x]
  show ?thesis
  proof (cases "I < 100")
    case True
    then have si: "to_string I = [digit_char (i div 10), digit_char (i mod 10)]"
      using I by (simp add: to_string_def string_of_nat_2 i_def)
    have i10: "i div 10 < 10" "i mod 10 < 10" using True I by (simp_all add: i_def)
    have "CalculatePrice (FormatPrice ?p) =
        Inr (real z / 256 + real (x mod 10) / 32 + 10 * real (x div 10) / 32 +
             real (i mod 10) + 10 * real (i div 10))"
      unfolding fmt si
      by (simp add: CalculatePrice_def Let_def digit_value_digit_char x10 z10 i10)
    also have "\<dots> = Inr ?p"
      using frac digits_sum_2 [of i] by (simp add: I_eq XY_eq Z_eq)
    finally show ?thesis .
  next
    case False
    then have si: "to_string I =
        [digit_char (i div 100), digit_char (i div 10 mod 10), digit_char (i mod 10)]"
      using I by (simp add: to_string_def string_of_nat_3 i_def)
    have i10: "i div 10 mod 10 < 10" "i mod 10 < 10" by simp_all
    have "100 \<le> i" "i \<le> 199" using False I by (simp_all add: i_def)
    then have hundred: "i mod 10 + 10 * (i div 10 mod 10) + 100 = i" by (rule digits_sum_3)
    then have "real (i mod 10 + 10 * (i div 10 mod 10) + 100) = real i" by (rule arg_cong)
    then have hundred': "real (i mod 10) + 10 * real (i div 10 mod 10) + 100 = real i"
      by (simp only: of_nat_add of_nat_mult of_nat_numeral)
    have "CalculatePrice (FormatPrice ?p) =
        Inr (real z / 256 + real (x mod 10) / 32 + 10 * real (x div 10) / 32 +
             real (i mod 10) + 10 * real (i div 10 mod 10) + 100)"
      unfolding fmt si
      by (simp add: CalculatePrice_def Let_def digit_value_digit_char x10 z10 i10)
    also have "\<dots> = Inr ?p"
      using frac hundred' by (simp add: I_eq XY_eq Z_eq)
    finally show ?thesis .
  qed
qed

text \<open>The price 99-317.\<close>

theorem price_codec_round_trip_witness:
  "FormatPrice (99 + 31 / 32 + 7 / 256) = ''99-317'' \<and>
   CalculatePrice (FormatPrice (99 + 31 / 32 + 7 / 256)) = Inr (99 + 31 / 32 + 7 / 256)"
proof -
  have "CalculatePrice
          (FormatPrice (real_of_int 99 + real_of_int 31 / 32 + real_of_int 7 / 256)) =
        Inr (real_of_int 99 + real_of_int 31 / 32 + real_of_int 7 / 256)"
    by (rule price_codec_round_trip) simp_all
  moreover have "FormatPrice (99 + 31 / 32 + 7 / 256) = ''99-317''"
    by (simp add: FormatPrice_def Let_def int32_of_double_def trunc_def double_of_int32_def
        to_string_def string_of_nat.simps digit_char_simps)
  ultimately show ?thesis by simp
qed

text \<open>
  The claim as the specification states it fails outside that range. The price 200 is
  written \<open>200-000\<close> and read back as 100; the price 5 is written \<open>5-000\<close>, and reading
  it back indexes before the start of the string.
\<close>

theorem price_codec_counterexample:
  "FormatPrice (200 + 0 / 32 + 0 / 256) = ''200-000'' \<and>
   CalculatePrice (FormatPrice (200 + 0 / 32 + 0 / 256)) = Inr 100 \<and>
   \<not> \<bar>100 - (200 + 0 / 32 + 0 / 256)\<bar> \<le> (1 / 256 :: real) \<and>
   FormatPrice (5 + 0 / 32 + 0 / 256) = ''5-000'' \<and>
   CalculatePrice (FormatPrice (5 + 0 / 32 + 0 / 256)) = Inl OutOfRange"
  by (simp add: FormatPrice_def CalculatePrice_def Let_def int32_of_double_def trunc_def
      double_of_int32_def to_string_def string_of_nat.simps digit_char_simps digit_value_def)

end
